theory Spec2Isabelle
  imports Complex_Main "HOL-Library.Log_Nat"
begin

section \<open>Values exchanged by the analyzer\<close>

text \<open>
  Every outcome of the analyzer is a Python dictionary whose values are JSON-like: the
  decoded model response, or an error dictionary built by the code. A dictionary is an
  association list in insertion order; \<open>dict_set\<close> is \<^verbatim>\<open>d[k] = v\<close> (an existing
  key keeps its position) and \<open>dict_has\<close> is \<^verbatim>\<open>k in d\<close>. Look-ups go through
  \<open>map_of\<close>, which reads the first binding of a key. Strings are sequences of code
  points below 256; numbers carry the exact value of the Python number.
\<close>

datatype json =
    JNull
  | JBool bool
  | JNum rat
  | JStr string
  | JArr "json list"
  | JObj "(string \<times> json) list"

type_synonym dict = "(string \<times> json) list"

fun dict_set :: "string \<Rightarrow> json \<Rightarrow> dict \<Rightarrow> dict" where
  "dict_set k v [] = [(k, v)]"
| "dict_set k v ((k', v') # d) =
     (if k' = k then (k, v) # d else (k', v') # dict_set k v d)"

definition dict_has :: "string \<Rightarrow> dict \<Rightarrow> bool" where
  "dict_has k d = (map_of d k \<noteq> None)"

text \<open>
  An exception of the interpreter: its class, with the text \<^verbatim>\<open>str(e)\<close> gives for it.
  All of them are instances of \<^verbatim>\<open>Exception\<close>; the code tells a
  \<^verbatim>\<open>JSONDecodeError\<close> from the others, and \<open>Exception\<close> stands for every class that
  has no constructor of its own. Interrupts and cancellations are left out.
\<close>

datatype exn =
    Exception string
  | ValueError string
  | KeyError string
  | TypeError string
  | RecursionError string
  | JSONDecodeError string

fun str_exn :: "exn \<Rightarrow> string" where
  "str_exn (Exception m) = m"
| "str_exn (ValueError m) = m"
| "str_exn (KeyError m) = m"
| "str_exn (TypeError m) = m"
| "str_exn (RecursionError m) = m"
| "str_exn (JSONDecodeError m) = m"

section \<open>String functions of the standard library\<close>

text \<open>
  \<^verbatim>\<open>str.lower\<close>, \<^verbatim>\<open>str.strip\<close>, \<^verbatim>\<open>str.join\<close> and \<^verbatim>\<open>os.path.splitext\<close>
  (the POSIX flavour: separator \<^verbatim>\<open>/\<close>, no alternative separator), on code points
  below 256.
\<close>

definition lower_char :: "char \<Rightarrow> char" where
  "lower_char c =
     (let n = (of_char c :: nat)
      in if (65 \<le> n \<and> n \<le> 90) \<or> (192 \<le> n \<and> n \<le> 222 \<and> n \<noteq> 215)
         then char_of (n + 32) else c)"

definition lower :: "string \<Rightarrow> string" where
  "lower s = map lower_char s"

definition isspace :: "char \<Rightarrow> bool" where
  "isspace c =
     (let n = (of_char c :: nat)
      in (9 \<le> n \<and> n \<le> 13) \<or> (28 \<le> n \<and> n \<le> 32) \<or> n = 133 \<or> n = 160)"

definition strip :: "string \<Rightarrow> string" where
  "strip s = rev (dropWhile isspace (rev (dropWhile isspace s)))"

fun join :: "string \<Rightarrow> string list \<Rightarrow> string" where
  "join sep [] = []"
| "join sep [x] = x"
| "join sep (x # y # ys) = x @ sep @ join sep (y # ys)"

primrec rfind_from :: "char \<Rightarrow> string \<Rightarrow> nat \<Rightarrow> int \<Rightarrow> int" where
  "rfind_from c [] k r = r"
| "rfind_from c (x # xs) k r = rfind_from c xs (Suc k) (if x = c then int k else r)"

definition rfind :: "char \<Rightarrow> string \<Rightarrow> int" where
  "rfind c p = rfind_from c p 0 (- 1)"

definition splitext :: "string \<Rightarrow> string \<times> string" where
  "splitext p =
     (let sepIndex = rfind CHR ''/'' p;
          dotIndex = rfind CHR ''.'' p
      in if dotIndex > sepIndex \<and>
            list_ex (\<lambda>k. p ! k \<noteq> CHR ''.'') [nat (sepIndex + 1) ..< nat dotIndex]
         then (take (nat dotIndex) p, drop (nat dotIndex) p)
         else (p, []))"

section \<open>Floating-point arithmetic\<close>

text \<open>
  Python's \<^verbatim>\<open>float\<close> is an IEEE binary64 number. \<open>fl q\<close> is the binary64 number
  nearest to the rational \<open>q\<close> (ties to even, 53 significant bits), which is what a
  division of two integers and a multiplication of two floats return for the exact
  result \<open>q\<close>. Overflow and subnormal numbers are left out: the quotients the analyzer
  forms lie far inside the normal range.
\<close>

definition round_half_even :: "rat \<Rightarrow> int" where
  "round_half_even x =
     (let n = \<lfloor>x\<rfloor>; d = x - of_int n
      in if d < 1 / 2 then n
         else if d > 1 / 2 then n + 1
         else if even n then n else n + 1)"

definition floor_log2 :: "rat \<Rightarrow> int" where
  "floor_log2 q =
     (let (a, b) = quotient_of q;
          e = bitlen a - bitlen b
      in if of_int a < (2::rat) powi e * of_int b then e - 1 else e)"

definition fl :: "rat \<Rightarrow> rat" where
  "fl q =
     (if q = 0 then 0
      else let a = \<bar>q\<bar>;
               u = (2::rat) powi (floor_log2 a - 52);
               r = of_int (round_half_even (a / u)) * u
           in if q < 0 then - r else r)"

text \<open>\<^verbatim>\<open>round(x, 2)\<close> on a float: the exact value is rounded to two decimals, ties
  to even, and the result is the float nearest to that decimal.\<close>

definition round2 :: "rat \<Rightarrow> rat" where
  "round2 x = fl (of_int (round_half_even (x * 100)) / 100)"

section \<open>Configuration (config.py)\<close>

definition SUPPORTED_FORMATS :: "string list" where
  "SUPPORTED_FORMATS = [''.pdf'', ''.docx'']"

definition MAX_FILE_SIZE_MB :: rat where
  "MAX_FILE_SIZE_MB = 10"

definition TEMP_DIR :: string where
  "TEMP_DIR = ''temp_files''"

definition unsupported_format :: string where
  "unsupported_format = ''Unsupported file format. Please upload PDF or DOCX files.''"

definition file_too_large :: string where
  "file_too_large = ''File size exceeds maximum limit of 10MB''"

text \<open>The three settings the analyzer page overwrites before a run.\<close>

record config =
  BATCH_SIZE :: int
  MAX_CONCURRENT_REQUESTS :: int
  RATE_LIMIT_DELAY :: rat

definition default_config :: config where
  "default_config = \<lparr>BATCH_SIZE = 10, MAX_CONCURRENT_REQUESTS = 5, RATE_LIMIT_DELAY = 1\<rparr>"

section \<open>Uploaded files, the outside world, and what a run does to it\<close>

text \<open>
  An uploaded file as the code reads it: its name and its size in bytes. The list given to
  \<^verbatim>\<open>process_batch\<close> holds such objects, as the upload widget of the page delivers
  them; \<^verbatim>\<open>None\<close> is not one of them, and the branch of \<^verbatim>\<open>validate_file\<close> for it
  has no counterpart here.
\<close>

record uploaded_file =
  name :: string
  size_bytes :: int

text \<open>
  The object \<^verbatim>\<open>generate_content\<close> returns. The code reads its \<^verbatim>\<open>text\<close>, a
  property that gives the text of the answer or raises (the client raises there when the
  answer holds no text); reading it again gives the same.
\<close>

datatype response = Response "exn + string"

fun response_text :: "response \<Rightarrow> exn + string" where
  "response_text (Response t) = t"

text \<open>
  The collaborators the code calls. Each answer is indexed by the position of the file in
  the input list, so two calls with equal arguments may answer differently. A call that
  raises answers \<open>Inl\<close> with the exception, which may be of any class.
  \<^item> \<open>pdf_extract_text\<close>: pdfminer's \<^verbatim>\<open>extract_text(path)\<close>;
  \<^item> \<open>docx_paragraphs\<close>: the paragraph texts of \<^verbatim>\<open>Document(path)\<close>;
  \<^item> \<open>generate_content\<close>: \<^verbatim>\<open>model.generate_content(prompt)\<close>;
  \<^item> \<open>json_loads\<close>: \<^verbatim>\<open>json.loads\<close>, which raises a \<^verbatim>\<open>JSONDecodeError\<close> on
    text that is not JSON, and exceptions of other classes as well (a
    \<^verbatim>\<open>RecursionError\<close> on deep nesting, a \<^verbatim>\<open>ValueError\<close> on an integer with too
    many digits);
  \<^item> \<open>strftime\<close>: \<^verbatim>\<open>time.strftime("%Y-%m-%d %H:%M:%S")\<close>;
  \<^item> \<open>named_temporary_file\<close>: creating the directory and the temporary file with
    the given suffix and writing the upload to it; the answer is the file's path;
  \<^item> \<open>type_error_text\<close>: the interpreter's text for the \<^verbatim>\<open>TypeError\<close> of
    subscripting a value that is not a dictionary.
\<close>

record env =
  pdf_extract_text :: "nat \<Rightarrow> string \<Rightarrow> exn + string"
  docx_paragraphs :: "nat \<Rightarrow> string \<Rightarrow> exn + string list"
  generate_content :: "nat \<Rightarrow> string \<Rightarrow> exn + response"
  json_loads :: "string \<Rightarrow> exn + json"
  strftime :: "nat \<Rightarrow> string"
  named_temporary_file :: "nat \<Rightarrow> string \<Rightarrow> exn + string"
  type_error_text :: "json \<Rightarrow> string"

text \<open>The calls a run makes on the outside world, in the order it makes them.\<close>

datatype event =
    SaveUploadedFile nat
  | ExtractText nat string
  | GenerateContent nat string
  | CleanupTempFile nat string
  | ProgressCallback rat
  | Sleep rat

section \<open>FileProcessor (utils/file\_processor.py)\<close>

definition validate_file :: "uploaded_file \<Rightarrow> bool \<times> string" where
  "validate_file file =
     (let file_extension = lower (snd (splitext (name file)))
      in if file_extension \<notin> set SUPPORTED_FORMATS then (False, unsupported_format)
         else let file_size_mb = fl (of_int (size_bytes file) / (1024 * 1024))
              in if file_size_mb > MAX_FILE_SIZE_MB then (False, file_too_large)
                 else (True, ''File is valid''))"

definition extract_text_from_file ::
  "env \<Rightarrow> nat \<Rightarrow> string \<Rightarrow> (exn + string) \<times> event list" where
  "extract_text_from_file env i file_path =
     (let file_extension = lower (snd (splitext file_path));
          wrap = (\<lambda>e. Exception (''Error extracting text from file: '' @ str_exn e))
      in if file_extension = ''.pdf'' then
           (case pdf_extract_text env i file_path of
              Inl e \<Rightarrow> (Inl (wrap e), [ExtractText i file_path])
            | Inr text \<Rightarrow> (Inr text, [ExtractText i file_path]))
         else if file_extension = ''.docx'' then
           (case docx_paragraphs env i file_path of
              Inl e \<Rightarrow> (Inl (wrap e), [ExtractText i file_path])
            | Inr ps \<Rightarrow> (Inr (join [CHR 0x0A] ps), [ExtractText i file_path]))
         else (Inl (wrap (ValueError (''Unsupported file format: '' @ file_extension))), []))"

definition save_uploaded_file ::
  "env \<Rightarrow> nat \<Rightarrow> uploaded_file \<Rightarrow> (exn + string) \<times> event list" where
  "save_uploaded_file env i uploaded =
     (case named_temporary_file env i (snd (splitext (name uploaded))) of
        Inl e \<Rightarrow> (Inl (Exception (''Error saving uploaded file: '' @ str_exn e)),
                  [SaveUploadedFile i])
      | Inr temp_name \<Rightarrow> (Inr temp_name, [SaveUploadedFile i]))"

text \<open>\<^verbatim>\<open>cleanup_temp_file\<close> swallows every exception: it only leaves its call.\<close>

definition cleanup_temp_file :: "nat \<Rightarrow> string \<Rightarrow> event list" where
  "cleanup_temp_file i file_path = [CleanupTempFile i file_path]"

definition get_file_info :: "uploaded_file \<Rightarrow> dict" where
  "get_file_info file =
     [(''name'', JStr (name file)),
      (''size_mb'', JNum (round2 (fl (of_int (size_bytes file) / (1024 * 1024))))),
      (''type'', JStr (lower (snd (splitext (name file)))))]"

section \<open>ResumeParser (models/resume\_parser.py)\<close>

definition prompt_head :: "string list" where
  \<open>prompt_head =
    ['''',
     ''        Analyze the following resume and extract the following information in JSON format:'',
     ''        '',
     ''        {'',
     ''            "name": "Full name of the person",'',
     ''            "contact_details": {'',
     ''                "email": "Email address",'',
     ''                "phone": "Phone number",'',
     ''                "location": "City, State/Country"'',
     ''            },'',
     ''            "education": {'',
     ''                "university": "University/Institution name",'',
     ''                "year_of_study": "Current year or graduation year",'',
     ''                "course": "Degree program name",'',
     ''                "discipline": "Field of study",'',
     ''                "cgpa_percentage": "CGPA or percentage if available"'',
     ''            },'',
     ''            "skills": {'',
     ''                "technical_skills": ["List of technical skills"],'',
     ''                "soft_skills": ["List of soft skills"],'',
     ''                "programming_languages": ["List of programming languages"],'',
     ''                "tools_technologies": ["List of tools and technologies"]'',
     ''            },'',
     ''            "experience_scores": {'',
     ''                "ai_ml_experience": "Score from 1-10 based on AI/ML experience",'',
     ''                "gen_ai_experience": "Score from 1-10 based on Gen AI experience",'',
     ''                "overall_experience": "Score from 1-10 based on overall experience"'',
     ''            },'',
     ''            "supporting_information": {'',
     ''                "certifications": ["List of relevant certifications"],'',
     ''                "internships": ["List of internships"],'',
     ''                "projects": ["List of relevant projects"],'',
     ''                "achievements": ["List of achievements"]'',
     ''            },'',
     ''            "analysis_metadata": {'',
     ''                "processing_timestamp": "Current timestamp",'',
     ''                "file_name": "Original file name",'',
     ''                "confidence_score": "Confidence in analysis (1-10)"'',
     ''            }'',
     ''        }'',
     ''        '',
     ''        Resume text:'',
     ''        '']\<close>

definition prompt_tail :: "string list" where
  \<open>prompt_tail =
    ['''',
     ''        '',
     ''        Please ensure the response is valid JSON format only.'',
     ''        '']\<close>

definition create_analysis_prompt :: "string \<Rightarrow> string" where
  "create_analysis_prompt text =
     join [CHR 0x0A] prompt_head @ text @ join [CHR 0x0A] prompt_tail"

text \<open>
  One of the two assignments \<^verbatim>\<open>analysis_result["analysis_metadata"][key] = value\<close>:
  a \<^verbatim>\<open>TypeError\<close> when the decoded response or its metadata is not a dictionary, a
  \<^verbatim>\<open>KeyError\<close> when the response has no metadata.
\<close>

definition set_metadata :: "env \<Rightarrow> json \<Rightarrow> string \<Rightarrow> string \<Rightarrow> exn + dict" where
  "set_metadata env analysis_result key val =
     (case analysis_result of
        JObj d \<Rightarrow>
          (case map_of d ''analysis_metadata'' of
             None \<Rightarrow> Inl (KeyError (CHR 0x27 # ''analysis_metadata'' @ [CHR 0x27]))
           | Some (JObj md) \<Rightarrow>
               Inr (dict_set ''analysis_metadata'' (JObj (dict_set key (JStr val) md)) d)
           | Some other \<Rightarrow> Inl (TypeError (type_error_text env other)))
      | other \<Rightarrow> Inl (TypeError (type_error_text env other)))"

text \<open>The dictionaries of the two \<^verbatim>\<open>except\<close> branches.\<close>

definition parse_failure :: "string \<Rightarrow> string \<Rightarrow> string \<Rightarrow> dict" where
  "parse_failure msg file_name raw =
     [(''error'', JStr (''Failed to parse AI response as JSON: '' @ msg)),
      (''file_name'', JStr file_name),
      (''raw_response'', JStr raw)]"

definition analysis_failure :: "exn \<Rightarrow> string \<Rightarrow> dict" where
  "analysis_failure e file_name =
     [(''error'', JStr (''Error analyzing resume: '' @ str_exn e)),
      (''file_name'', JStr file_name)]"

text \<open>
  The two handlers, for an exception raised anywhere in the \<^verbatim>\<open>try\<close>. The first takes
  a \<^verbatim>\<open>JSONDecodeError\<close>: it reads \<^verbatim>\<open>response.text\<close> again when \<^verbatim>\<open>response\<close>
  is bound, and says \<^verbatim>\<open>No response\<close> when it is not; an exception of that reading
  leaves the function. The second takes every other exception.
\<close>

definition handle_exception :: "exn \<Rightarrow> string \<Rightarrow> response option \<Rightarrow> exn + dict" where
  "handle_exception e file_name response =
     (case e of
        JSONDecodeError msg \<Rightarrow>
          (case response of
             None \<Rightarrow> Inr (parse_failure msg file_name ''No response'')
           | Some r \<Rightarrow>
               (case response_text r of
                  Inl e' \<Rightarrow> Inl e'
                | Inr raw \<Rightarrow> Inr (parse_failure msg file_name raw)))
      | _ \<Rightarrow> Inr (analysis_failure e file_name))"

text \<open>
  The body of the \<^verbatim>\<open>try\<close> runs until its first exception, which goes to the
  handlers with \<^verbatim>\<open>response\<close> bound or not, as the body left it.
\<close>

definition analyze_single_resume ::
  "env \<Rightarrow> nat \<Rightarrow> string \<Rightarrow> string \<Rightarrow> (exn + dict) \<times> event list" where
  "analyze_single_resume env i file_path file_name =
     (case extract_text_from_file env i file_path of
        (Inl e, evs) \<Rightarrow> (handle_exception e file_name None, evs)
      | (Inr text, evs) \<Rightarrow>
          (let prompt = create_analysis_prompt text;
               evs' = evs @ [GenerateContent i prompt]
           in case generate_content env i prompt of
                Inl e \<Rightarrow> (handle_exception e file_name None, evs')
              | Inr response \<Rightarrow>
                  (case response_text response of
                     Inl e \<Rightarrow> (handle_exception e file_name (Some response), evs')
                   | Inr raw \<Rightarrow>
                       (case json_loads env (strip raw) of
                          Inl e \<Rightarrow> (handle_exception e file_name (Some response), evs')
                        | Inr analysis_result \<Rightarrow>
                            (case set_metadata env analysis_result ''file_name'' file_name of
                               Inl e \<Rightarrow> (handle_exception e file_name (Some response), evs')
                             | Inr stamped \<Rightarrow>
                                 (case set_metadata env (JObj stamped) ''processing_timestamp''
                                         (strftime env i) of
                                    Inl e \<Rightarrow>
                                      (handle_exception e file_name (Some response), evs')
                                  | Inr analysis_result' \<Rightarrow> (Inr analysis_result', evs')))))))"

text \<open>
  The task of one file inside \<^verbatim>\<open>process_batch\<close>. It raises when the upload cannot be
  saved and when the analysis raises; the \<^verbatim>\<open>finally\<close> clause removes the temporary
  file on every way out of the analysis.
\<close>

definition validation_failure :: "string \<Rightarrow> string \<Rightarrow> dict" where
  "validation_failure error_msg file_name =
     [(''error'', JStr error_msg), (''file_name'', JStr file_name)]"

definition process_file ::
  "env \<Rightarrow> nat \<Rightarrow> uploaded_file \<Rightarrow> (exn + dict) \<times> event list" where
  "process_file env i file =
     (let (is_valid, error_msg) = validate_file file
      in if \<not> is_valid then (Inr (validation_failure error_msg (name file)), [])
         else
           (case save_uploaded_file env i file of
              (Inl e, evs) \<Rightarrow> (Inl e, evs)
            | (Inr temp_file_path, evs) \<Rightarrow>
                (case analyze_single_resume env i temp_file_path (name file) of
                   (Inl e, evs2) \<Rightarrow> (Inl e, evs @ evs2 @ cleanup_temp_file i temp_file_path)
                 | (Inr result, evs2) \<Rightarrow>
                     (Inr (dict_set ''file_info'' (JObj (get_file_info file)) result),
                      evs @ evs2 @ cleanup_temp_file i temp_file_path))))"

text \<open>
  What \<^verbatim>\<open>process_batch\<close> appends for one settled task: \<^verbatim>\<open>gather\<close> hands an
  exception of the task back as a value, and the loop turns it into a dictionary.
\<close>

definition processing_failure :: "exn \<Rightarrow> string \<Rightarrow> dict" where
  "processing_failure e file_name =
     [(''error'', JStr (''Processing error: '' @ str_exn e)), (''file_name'', JStr file_name)]"

definition settle :: "uploaded_file \<Rightarrow> exn + dict \<Rightarrow> dict" where
  "settle file result =
     (case result of
        Inl e \<Rightarrow> processing_failure e (name file)
      | Inr r \<Rightarrow> r)"

definition task_outcome :: "env \<Rightarrow> nat \<Rightarrow> uploaded_file \<Rightarrow> dict" where
  "task_outcome env i file = settle file (fst (process_file env i file))"

definition task_events :: "env \<Rightarrow> nat \<Rightarrow> uploaded_file \<Rightarrow> event list" where
  "task_events env i file = snd (process_file env i file)"

text \<open>
  \<^verbatim>\<open>range(start, stop, step)\<close> as the interpreter builds it: the number of
  elements first, then each element from its index.
\<close>

definition py_range :: "int \<Rightarrow> int \<Rightarrow> int \<Rightarrow> exn + int list" where
  "py_range start stop step =
     (if step = 0 then Inl (ValueError ''range() arg 3 must not be zero'')
      else Inr (map (\<lambda>k. start + int k * step)
             [0 ..< nat (if 0 < step then (stop - start + step - 1) div step
                         else (start - stop - step - 1) div (- step))]))"

definition progress_value :: "int \<Rightarrow> nat \<Rightarrow> nat \<Rightarrow> rat" where
  "progress_value i len_batch len_files =
     min (fl (fl (of_int (i + int len_batch) / of_nat len_files) * 100)) 100"

text \<open>
  One round of the loop over the chunks. No task of this code gives control away before it
  has finished (every call it makes is synchronous), so the tasks of a chunk run one after
  the other in the order of the chunk, and \<^verbatim>\<open>gather\<close> returns their results in that
  order.
\<close>

definition process_chunk ::
  "env \<Rightarrow> config \<Rightarrow> bool \<Rightarrow> uploaded_file list \<Rightarrow>
   dict list \<times> event list \<Rightarrow> int \<Rightarrow> dict list \<times> event list" where
  "process_chunk env cfg progress_callback files acc i =
     (let (results, evs) = acc;
          batch = take (nat (BATCH_SIZE cfg)) (drop (nat i) files);
          tasks = enumerate (nat i) batch;
          batch_results = map (\<lambda>(j, file). process_file env j file) tasks;
          results' = results @ map (\<lambda>(file, result). settle file (fst result))
                                   (zip batch batch_results);
          evs1 = evs @ concat (map snd batch_results);
          evs2 = evs1 @ (if progress_callback
                         then [ProgressCallback (progress_value i (length batch) (length files))]
                         else []);
          evs3 = evs2 @ (if i + BATCH_SIZE cfg < int (length files)
                         then [Sleep (RATE_LIMIT_DELAY cfg)] else [])
      in (results', evs3))"

text \<open>
  A run of \<^verbatim>\<open>process_batch\<close> returns, raises, or never returns: a semaphore of
  capacity zero admits no task, and the first chunk waits for ever.
\<close>

datatype 'a run = Returned 'a | Raised exn | Never_returns

definition process_batch ::
  "env \<Rightarrow> config \<Rightarrow> bool \<Rightarrow> uploaded_file list \<Rightarrow> (dict list \<times> event list) run" where
  "process_batch env cfg progress_callback files =
     (if MAX_CONCURRENT_REQUESTS cfg < 0
      then Raised (ValueError ''Semaphore initial value must be >= 0'')
      else
        (case py_range 0 (int (length files)) (BATCH_SIZE cfg) of
           Inl e \<Rightarrow> Raised e
         | Inr starts \<Rightarrow>
             if starts \<noteq> [] \<and> MAX_CONCURRENT_REQUESTS cfg = 0 then Never_returns
             else Returned (foldl (process_chunk env cfg progress_callback files) ([], []) starts)))"

text \<open>The values the progress callback received and the delays awaited, in order.\<close>

fun progress_calls :: "event list \<Rightarrow> rat list" where
  "progress_calls [] = []"
| "progress_calls (ProgressCallback v # evs) = v # progress_calls evs"
| "progress_calls (_ # evs) = progress_calls evs"

fun sleep_calls :: "event list \<Rightarrow> rat list" where
  "sleep_calls [] = []"
| "sleep_calls (Sleep d # evs) = d # sleep_calls evs"
| "sleep_calls (_ # evs) = sleep_calls evs"

fun is_chunk_event :: "event \<Rightarrow> bool" where
  "is_chunk_event (ProgressCallback v) = True"
| "is_chunk_event (Sleep d) = True"
| "is_chunk_event _ = False"

text \<open>The file an event belongs to: the calls of a task carry the position of its file,
  the calls of the loop itself carry none.\<close>

fun event_item :: "event \<Rightarrow> nat option" where
  "event_item (SaveUploadedFile i) = Some i"
| "event_item (ExtractText i p) = Some i"
| "event_item (GenerateContent i p) = Some i"
| "event_item (CleanupTempFile i p) = Some i"
| "event_item (ProgressCallback v) = None"
| "event_item (Sleep d) = None"

text \<open>The chunks of a run: the slices the loop takes.\<close>

definition chunks :: "config \<Rightarrow> uploaded_file list \<Rightarrow> uploaded_file list list" where
  "chunks cfg files =
     (case py_range 0 (int (length files)) (BATCH_SIZE cfg) of
        Inl e \<Rightarrow> []
      | Inr starts \<Rightarrow> map (\<lambda>i. take (nat (BATCH_SIZE cfg)) (drop (nat i) files)) starts)"

text \<open>The events of the chunk number \<open>k\<close> (counted from 0) of a run, for the proofs.\<close>

definition chunk_trace ::
  "env \<Rightarrow> config \<Rightarrow> bool \<Rightarrow> uploaded_file list \<Rightarrow> nat \<Rightarrow> event list" where
  "chunk_trace env cfg progress_callback files k =
     (let b = nat (BATCH_SIZE cfg);
          batch = take b (drop (k * b) files)
      in concat (map (\<lambda>(j, file). task_events env j file) (enumerate (k * b) batch))
         @ (if progress_callback
            then [ProgressCallback (progress_value (int (k * b)) (length batch) (length files))]
            else [])
         @ (if int (k * b) + BATCH_SIZE cfg < int (length files)
            then [Sleep (RATE_LIMIT_DELAY cfg)] else []))"

text \<open>
  Whether a decoded response can be stamped: it is a dictionary whose
  \<^verbatim>\<open>analysis_metadata\<close> is a dictionary.
\<close>

definition has_metadata :: "json \<Rightarrow> bool" where
  "has_metadata v =
     (case v of
        JObj d \<Rightarrow> (case map_of d ''analysis_metadata'' of Some (JObj md) \<Rightarrow> True | _ \<Rightarrow> False)
      | _ \<Rightarrow> False)"

text \<open>
  The response the task of a file decodes, when the task comes that far: the file is valid
  and saved, its text is extracted, the client answers with a text, and the text is JSON.
\<close>

definition decoded :: "env \<Rightarrow> nat \<Rightarrow> uploaded_file \<Rightarrow> json option" where
  "decoded env i file =
     (if \<not> fst (validate_file file) then None
      else case fst (save_uploaded_file env i file) of
        Inl e \<Rightarrow> None
      | Inr temp_file_path \<Rightarrow>
          (case fst (extract_text_from_file env i temp_file_path) of
             Inl e \<Rightarrow> None
           | Inr text \<Rightarrow>
               (case generate_content env i (create_analysis_prompt text) of
                  Inl e \<Rightarrow> None
                | Inr response \<Rightarrow>
                    (case response_text response of
                       Inl e \<Rightarrow> None
                     | Inr raw \<Rightarrow>
                         (case json_loads env (strip raw) of
                            Inl e \<Rightarrow> None
                          | Inr analysis_result \<Rightarrow> Some analysis_result)))))"

section \<open>OutputHandler (utils/output\_handler.py)\<close>

text \<open>The two comprehensions by which \<^verbatim>\<open>generate_summary_stats\<close> (and the JSON
  export) tell the successes from the failures.\<close>

definition successful_results :: "dict list \<Rightarrow> dict list" where
  "successful_results results = filter (\<lambda>r. \<not> dict_has ''error'' r) results"

definition failed_results :: "dict list \<Rightarrow> dict list" where
  "failed_results results = filter (\<lambda>r. dict_has ''error'' r) results"

section \<open>A sample world and a sample upload\<close>

text \<open>
  Seven uploads that take seven ways through a task: a success, a failed extraction,
  a failed API call, a response that is not JSON, an upload that cannot be saved, an
  unsupported extension and an oversized file.
\<close>

definition demo_response :: json where
  "demo_response =
     JObj [(''name'', JStr ''Ada''),
           (''analysis_metadata'',
              JObj [(''processing_timestamp'', JStr ''Current timestamp''),
                    (''file_name'', JStr ''model.pdf''),
                    (''confidence_score'', JStr ''9'')])]"

definition demo_env :: env where
  "demo_env =
     \<lparr>pdf_extract_text =
        (\<lambda>i p. if i = 1 then Inl (ValueError ''corrupt'') else Inr ''resume''),
      docx_paragraphs = (\<lambda>i p. Inr [''first'', ''second'']),
      generate_content =
        (\<lambda>i p. if i = 2 then Inl (Exception ''quota'')
               else if i = 3 then Inr (Response (Inr ''no json''))
               else Inr (Response (Inr '' {} ''))),
      json_loads =
        (\<lambda>s. if s = ''{}'' then Inr demo_response
             else Inl (JSONDecodeError ''Expecting value'')),
      strftime = (\<lambda>i. ''2024-01-01 00:00:00''),
      named_temporary_file =
        (\<lambda>i suffix. if i = 4 then Inl (Exception ''disk full'')
                    else Inr (''temp_files/tmp'' @ suffix)),
      type_error_text = (\<lambda>v. ''not subscriptable'')\<rparr>"

definition demo_config :: config where
  "demo_config = \<lparr>BATCH_SIZE = 3, MAX_CONCURRENT_REQUESTS = 2, RATE_LIMIT_DELAY = 1 / 2\<rparr>"

definition demo_files :: "uploaded_file list" where
  "demo_files =
     [\<lparr>name = ''cv0.pdf'', size_bytes = 2048\<rparr>,
      \<lparr>name = ''cv1.pdf'', size_bytes = 2048\<rparr>,
      \<lparr>name = ''cv2.PDF'', size_bytes = 2048\<rparr>,
      \<lparr>name = ''cv3.docx'', size_bytes = 2048\<rparr>,
      \<lparr>name = ''cv4.pdf'', size_bytes = 2048\<rparr>,
      \<lparr>name = ''notes.txt'', size_bytes = 2048\<rparr>,
      \<lparr>name = ''big.pdf'', size_bytes = 15728640\<rparr>]"

text \<open>A response that decodes to a dictionary with an \<^verbatim>\<open>error\<close> entry of its own.\<close>

definition misleading_response :: json where
  "misleading_response = JObj [(''error'', JStr ''none''), (''analysis_metadata'', JObj [])]"

definition misleading_env :: env where
  "misleading_env = demo_env\<lparr>json_loads := (\<lambda>s. Inr misleading_response)\<rparr>"


text \<open>A world where the client answers valid JSON that has no metadata.\<close>

definition bare_env :: env where
  "bare_env = demo_env\<lparr>json_loads := (\<lambda>s. Inr (JObj [(''name'', JStr ''Ada'')]))\<rparr>"

text \<open>
  A world where the answer of the client is a thousand and one hundred opening brackets,
  on which \<^verbatim>\<open>json.loads\<close> raises a \<^verbatim>\<open>RecursionError\<close>.
\<close>

definition deep_text :: string where
  "deep_text = replicate 1100 CHR ''[''"

definition deep_env :: env where
  "deep_env =
     demo_env\<lparr>generate_content := (\<lambda>i p. Inr (Response (Inr deep_text))),
              json_loads :=
                (\<lambda>s. if s = deep_text
                     then Inl (RecursionError
                            (''maximum recursion depth exceeded while decoding '' @
                             ''a JSON array from a unicode string''))
                     else Inl (JSONDecodeError ''Expecting value''))\<rparr>"


text \<open>Twenty-five uploads of the same file, for the example of the specification.\<close>

definition twenty_five_files :: "uploaded_file list" where
  "twenty_five_files = replicate 25 \<lparr>name = ''cv.pdf'', size_bytes = 2048\<rparr>"

section \<open>Rounding to a float is monotone\<close>

lemma round_half_even_of_int: "round_half_even (of_int n) = n"
  by (simp add: round_half_even_def)

lemma round_half_even_mono:
  assumes "x \<le> y" shows "round_half_even x \<le> round_half_even y"
proof (cases "\<lfloor>x\<rfloor> = \<lfloor>y\<rfloor>")
  case True
  with assms show ?thesis
    unfolding round_half_even_def Let_def by auto
next
  case False
  with assms have lt: "\<lfloor>x\<rfloor> < \<lfloor>y\<rfloor>"
    using floor_mono[OF assms] by linarith
  have "round_half_even x \<le> \<lfloor>x\<rfloor> + 1"
    unfolding round_half_even_def Let_def by auto
  moreover have "\<lfloor>y\<rfloor> \<le> round_half_even y"
    unfolding round_half_even_def Let_def by auto
  ultimately show ?thesis using lt by linarith
qed

lemma bitlen_powi_bounds:
  assumes "0 < a"
  shows "(2::rat) powi (bitlen a - 1) \<le> of_int a" and "(of_int a :: rat) < 2 powi bitlen a"
proof -
  have ge1: "1 \<le> bitlen a" using assms by (simp add: bitlen_alt_def)
  from bitlen_bounds[OF assms]
  have lo: "2 ^ nat (bitlen a - 1) \<le> a" and hi: "a < 2 ^ nat (bitlen a)" by auto
  have "(of_int (2 ^ nat (bitlen a - 1)) :: rat) \<le> of_int a"
    using lo by (simp only: of_int_le_iff)
  then show "(2::rat) powi (bitlen a - 1) \<le> of_int a"
    using ge1 by (simp add: power_int_def)
  have "(of_int a :: rat) < of_int (2 ^ nat (bitlen a))"
    using hi by (simp only: of_int_less_iff)
  then show "(of_int a :: rat) < 2 powi bitlen a"
    using ge1 by (simp add: power_int_def)
qed

lemma floor_log2_bounds:
  assumes "0 < q"
  shows "(2::rat) powi floor_log2 q \<le> q" and "q < 2 powi (floor_log2 q + 1)"
proof -
  obtain a b where ab: "quotient_of q = (a, b)" by (cases "quotient_of q")
  have b: "0 < b" using ab by (rule quotient_of_denom_pos)
  have q: "q = of_int a / of_int b" using ab by (rule quotient_of_div)
  have a: "0 < a" using assms b q by (simp add: zero_less_divide_iff)
  define e where "e = bitlen a - bitlen b"
  have rb: "(0::rat) < of_int b" using b by simp
  note A = bitlen_powi_bounds[OF a] and B = bitlen_powi_bounds[OF b]
  have split1: "(2::rat) powi (bitlen a - 1) = 2 powi (e - 1) * 2 powi bitlen b"
    by (simp add: e_def flip: power_int_add)
  have split2: "(2::rat) powi bitlen a = 2 powi (e + 1) * 2 powi (bitlen b - 1)"
    by (simp add: e_def flip: power_int_add)
  have pos: "\<And>k. (0::rat) < 2 powi k" by simp
  show "(2::rat) powi floor_log2 q \<le> q"
  proof (cases "of_int a < (2::rat) powi e * of_int b")
    case True
    then have fl: "floor_log2 q = e - 1" by (simp add: floor_log2_def ab e_def)
    have "(2::rat) powi (e - 1) * of_int b \<le> 2 powi (e - 1) * 2 powi bitlen b"
      using B(2) pos[of "e - 1"] by (simp add: mult_left_mono)
    also have "\<dots> \<le> of_int a" using A(1) split1 by simp
    finally have "(2::rat) powi (e - 1) \<le> of_int a / of_int b"
      using rb by (simp add: pos_le_divide_eq)
    then show ?thesis by (simp only: fl flip: q)
  next
    case False
    then have fl: "floor_log2 q = e" by (simp add: floor_log2_def ab e_def)
    from False have "(2::rat) powi e \<le> of_int a / of_int b"
      using rb by (simp add: pos_le_divide_eq)
    then show ?thesis by (simp only: fl flip: q)
  qed
  show "q < 2 powi (floor_log2 q + 1)"
  proof (cases "of_int a < (2::rat) powi e * of_int b")
    case True
    then have fl: "floor_log2 q = e - 1" by (simp add: floor_log2_def ab e_def)
    from True have "of_int a / of_int b < (2::rat) powi (e - 1 + 1)"
      using rb by (simp add: pos_divide_less_eq)
    then show ?thesis by (simp only: fl flip: q)
  next
    case False
    then have fl: "floor_log2 q = e" by (simp add: floor_log2_def ab e_def)
    have "(of_int a :: rat) < 2 powi (e + 1) * 2 powi (bitlen b - 1)"
      using A(2) split2 by simp
    also have "\<dots> \<le> 2 powi (e + 1) * of_int b"
      using B(1) pos[of "e + 1"] by (simp add: mult_left_mono)
    finally have "of_int a / of_int b < (2::rat) powi (e + 1)"
      using rb by (simp add: pos_divide_less_eq)
    then show ?thesis by (simp only: fl flip: q)
  qed
qed

lemma floor_log2_mono:
  assumes "0 < x" "x \<le> y" shows "floor_log2 x \<le> floor_log2 y"
proof (rule ccontr)
  assume "\<not> floor_log2 x \<le> floor_log2 y"
  then have "floor_log2 y + 1 \<le> floor_log2 x" by simp
  then have "(2::rat) powi (floor_log2 y + 1) \<le> 2 powi floor_log2 x"
    by (rule power_int_increasing) simp
  also have "\<dots> \<le> x" using floor_log2_bounds(1)[OF assms(1)] .
  also have "\<dots> \<le> y" by fact
  finally show False using floor_log2_bounds(2)[of y] assms by simp
qed

lemma fl_pos_bounds:
  assumes "0 < q"
  shows "(2::rat) powi floor_log2 q \<le> fl q" and "fl q \<le> 2 powi (floor_log2 q + 1)"
proof -
  define e where "e = floor_log2 q"
  define u where "u = (2::rat) powi (e - 52)"
  have u: "0 < u" by (simp add: u_def)
  have flq: "fl q = of_int (round_half_even (q / u)) * u"
    using assms by (simp add: fl_def Let_def e_def u_def)
  have lo: "(2::rat) powi e = 2 ^ 52 * u" and hi: "(2::rat) powi (e + 1) = 2 ^ 53 * u"
    by (simp_all add: u_def power_int_diff power_int_add)
  have "2 ^ 52 * u \<le> q" using floor_log2_bounds(1)[OF assms] lo by (simp add: e_def)
  then have "of_int (2 ^ 52) \<le> q / u" using u by (simp add: pos_le_divide_eq)
  then have "round_half_even (of_int (2 ^ 52)) \<le> round_half_even (q / u)"
    by (rule round_half_even_mono)
  then have "(2 ^ 52 :: int) \<le> round_half_even (q / u)"
    by (simp only: round_half_even_of_int)
  then have "(of_int (2 ^ 52) :: rat) \<le> of_int (round_half_even (q / u))"
    by (simp only: of_int_le_iff)
  then have "2 ^ 52 * u \<le> of_int (round_half_even (q / u)) * u"
    using u by simp
  then show "(2::rat) powi floor_log2 q \<le> fl q" using lo flq by (simp add: e_def)
  have "q \<le> 2 ^ 53 * u" using floor_log2_bounds(2)[OF assms] hi by (simp add: e_def)
  then have "q / u \<le> of_int (2 ^ 53)" using u by (simp add: pos_divide_le_eq)
  then have "round_half_even (q / u) \<le> round_half_even (of_int (2 ^ 53))"
    by (rule round_half_even_mono)
  then have "round_half_even (q / u) \<le> (2 ^ 53 :: int)"
    by (simp only: round_half_even_of_int)
  then have "(of_int (round_half_even (q / u)) :: rat) \<le> of_int (2 ^ 53)"
    by (simp only: of_int_le_iff)
  then have "of_int (round_half_even (q / u)) * u \<le> 2 ^ 53 * u"
    using u by simp
  then show "fl q \<le> 2 powi (floor_log2 q + 1)" using hi flq by (simp add: e_def)
qed

lemma fl_mono:
  assumes "0 \<le> x" "x \<le> y" shows "fl x \<le> fl y"
proof (cases "x = 0")
  case True
  show ?thesis
  proof (cases "y = 0")
    case True
    with \<open>x = 0\<close> show ?thesis by simp
  next
    case False
    then have "0 < y" using assms by simp
    have "(0::rat) < 2 powi floor_log2 y" by simp
    also have "\<dots> \<le> fl y" using fl_pos_bounds(1)[OF \<open>0 < y\<close>] .
    finally show ?thesis using \<open>x = 0\<close> by (simp add: fl_def)
  qed
next
  case False
  then have x: "0 < x" using assms by simp
  then have y: "0 < y" using assms by simp
  have le: "floor_log2 x \<le> floor_log2 y" using floor_log2_mono[OF x assms(2)] .
  show ?thesis
  proof (cases "floor_log2 x = floor_log2 y")
    case True
    define u where "u = (2::rat) powi (floor_log2 y - 52)"
    have u: "0 < u" by (simp add: u_def)
    have "x / u \<le> y / u" using assms u by (simp add: divide_right_mono)
    then have "round_half_even (x / u) \<le> round_half_even (y / u)"
      by (rule round_half_even_mono)
    then have "(of_int (round_half_even (x / u)) :: rat) \<le> of_int (round_half_even (y / u))"
      by (simp only: of_int_le_iff)
    then have "of_int (round_half_even (x / u)) * u \<le> of_int (round_half_even (y / u)) * u"
      using u by simp
    then show ?thesis using x y True by (simp add: fl_def Let_def u_def)
  next
    case False
    with le have "floor_log2 x + 1 \<le> floor_log2 y" by simp
    then have "(2::rat) powi (floor_log2 x + 1) \<le> 2 powi floor_log2 y"
      by (rule power_int_increasing) simp
    then show ?thesis
      using fl_pos_bounds(2)[OF x] fl_pos_bounds(1)[OF y] by linarith
  qed
qed

lemma fl_1: "fl 1 = 1" by code_simp
lemma fl_10: "fl 10 = 10" by code_simp
lemma fl_100: "fl 100 = 100" by code_simp

section \<open>The loop over the chunks\<close>

lemma chunk_count_int:
  assumes "0 < (c::nat)"
  shows "nat ((int n + int c - 1) div int c) = (n + c - 1) div c"
proof -
  have "int n + int c - 1 = int (n + c - 1)" using assms by (simp add: of_nat_diff)
  then have "(int n + int c - 1) div int c = int ((n + c - 1) div c)"
    by (simp only: zdiv_int)
  then show ?thesis by (simp only: nat_int)
qed

lemma py_range_pos:
  assumes "0 < b"
  shows "py_range 0 (int n) b = Inr (map (\<lambda>k. int k * b) [0 ..< (n + nat b - 1) div nat b])"
proof -
  have "nat ((int n + int (nat b) - 1) div int (nat b)) = (n + nat b - 1) div nat b"
    by (rule chunk_count_int) (use assms in simp)
  then have "nat ((int n + b - 1) div b) = (n + nat b - 1) div nat b"
    using assms by simp
  then show ?thesis using assms unfolding py_range_def by simp
qed

lemma settle_zip:
  "map (\<lambda>(file, result). settle file (fst result))
       (zip batch (map (\<lambda>(j, file). process_file env j file) (enumerate s batch)))
   = map (\<lambda>(j, file). task_outcome env j file) (enumerate s batch)"
  by (induction batch arbitrary: s) (simp_all add: task_outcome_def)

lemma events_enumerate:
  "concat (map snd (map (\<lambda>(j, file). process_file env j file) (enumerate s batch)))
   = concat (map (\<lambda>(j, file). task_events env j file) (enumerate s batch))"
  by (induction batch arbitrary: s) (simp_all add: task_events_def)

lemma process_chunk_eq:
  assumes "0 < BATCH_SIZE cfg"
  shows "process_chunk env cfg cb files (results, evs) (int k * BATCH_SIZE cfg) =
     (results @ map (\<lambda>(j, file). task_outcome env j file)
        (enumerate (k * nat (BATCH_SIZE cfg))
           (take (nat (BATCH_SIZE cfg)) (drop (k * nat (BATCH_SIZE cfg)) files))),
      evs @ chunk_trace env cfg cb files k)"
proof -
  have n: "nat (int k * BATCH_SIZE cfg) = k * nat (BATCH_SIZE cfg)"
    by (simp add: nat_mult_distrib)
  have i: "int (k * nat (BATCH_SIZE cfg)) = int k * BATCH_SIZE cfg"
    using assms by simp
  show ?thesis
    unfolding process_chunk_def chunk_trace_def Let_def prod.case n i settle_zip events_enumerate
    by simp
qed

lemma chunk_count_bounds:
  assumes "0 < (b::nat)" "k < (n + b - 1) div b"
  shows "k * b < n"
proof -
  have "Suc k \<le> (n + b - 1) div b" using assms by simp
  then have "Suc k * b \<le> n + b - 1"
    using assms(1) by (simp only: less_eq_div_iff_mult_less_eq)
  then show ?thesis using assms(1) by simp
qed

lemma chunk_count_cover:
  assumes "0 < (b::nat)"
  shows "n \<le> ((n + b - 1) div b) * b"
proof -
  have "n + b - 1 < ((n + b - 1) div b) * b + b"
    using assms by (metis add.commute dividend_less_times_div mult.commute)
  then show ?thesis by simp
qed

lemma foldl_process_chunk:
  assumes "0 < BATCH_SIZE cfg"
    and "k \<le> (length files + nat (BATCH_SIZE cfg) - 1) div nat (BATCH_SIZE cfg)"
  shows "foldl (process_chunk env cfg cb files) ([], [])
           (map (\<lambda>k. int k * BATCH_SIZE cfg) [0 ..< k]) =
         (map (\<lambda>(j, file). task_outcome env j file)
            (enumerate 0 (take (k * nat (BATCH_SIZE cfg)) files)),
          concat (map (chunk_trace env cfg cb files) [0 ..< k]))"
  using assms(2)
proof (induction k)
  case 0
  show ?case by simp
next
  case (Suc k)
  define b where "b = nat (BATCH_SIZE cfg)"
  have b: "0 < b" using assms(1) by (simp add: b_def)
  have lt: "k * b < length files"
    using Suc.prems b chunk_count_bounds[of b k "length files"] by (simp add: b_def)
  have len: "length (take (k * b) files) = k * b" using lt by simp
  have tk: "take (Suc k * b) files = take (k * b) files @ take b (drop (k * b) files)"
  proof -
    have "Suc k * b = k * b + b" by simp
    then show ?thesis by (simp only: take_add)
  qed
  have IH: "foldl (process_chunk env cfg cb files) ([], [])
           (map (\<lambda>k. int k * BATCH_SIZE cfg) [0 ..< k]) =
         (map (\<lambda>(j, file). task_outcome env j file) (enumerate 0 (take (k * b) files)),
          concat (map (chunk_trace env cfg cb files) [0 ..< k]))"
    using Suc by (simp add: b_def)
  have "foldl (process_chunk env cfg cb files) ([], [])
           (map (\<lambda>k. int k * BATCH_SIZE cfg) [0 ..< Suc k]) =
        process_chunk env cfg cb files
          (map (\<lambda>(j, file). task_outcome env j file) (enumerate 0 (take (k * b) files)),
           concat (map (chunk_trace env cfg cb files) [0 ..< k])) (int k * BATCH_SIZE cfg)"
    by (simp only: upt_Suc_append[OF le0] map_append foldl_append IH list.map foldl.simps)
  also have "\<dots> =
        (map (\<lambda>(j, file). task_outcome env j file) (enumerate 0 (take (k * b) files))
           @ map (\<lambda>(j, file). task_outcome env j file)
               (enumerate (k * b) (take b (drop (k * b) files))),
         concat (map (chunk_trace env cfg cb files) [0 ..< k]) @ chunk_trace env cfg cb files k)"
    by (simp only: process_chunk_eq[OF assms(1)] b_def)
  also have "\<dots> =
        (map (\<lambda>(j, file). task_outcome env j file) (enumerate 0 (take (Suc k * b) files)),
         concat (map (chunk_trace env cfg cb files) [0 ..< Suc k]))"
    using lt by (simp add: tk enumerate_append_eq min_def del: mult_Suc)
  finally show ?case by (simp only: b_def)
qed

lemma process_batch_returns:
  assumes "0 < BATCH_SIZE cfg" "0 < MAX_CONCURRENT_REQUESTS cfg"
  shows "process_batch env cfg cb files =
     Returned (map (\<lambda>(j, file). task_outcome env j file) (enumerate 0 files),
               concat (map (chunk_trace env cfg cb files)
                 [0 ..< (length files + nat (BATCH_SIZE cfg) - 1) div nat (BATCH_SIZE cfg)]))"
proof -
  define b where "b = nat (BATCH_SIZE cfg)"
  have b: "0 < b" using assms(1) by (simp add: b_def)
  have "take (((length files + b - 1) div b) * b) files = files"
    using chunk_count_cover[OF b, of "length files"] by simp
  then show ?thesis
    using assms foldl_process_chunk[OF assms(1) le_refl, of env cb files]
    by (simp add: process_batch_def py_range_pos b_def)
qed

text \<open>Outside these settings a run gives no outcome for a file: a batch size of zero makes
  \<^verbatim>\<open>range\<close> raise, a negative one makes the loop empty, and a semaphore of capacity zero
  lets the first chunk wait for ever.\<close>

lemma process_batch_other_settings:
  "0 \<le> MAX_CONCURRENT_REQUESTS cfg \<Longrightarrow> BATCH_SIZE cfg = 0 \<Longrightarrow>
     process_batch env cfg cb files = Raised (ValueError ''range() arg 3 must not be zero'')"
  "0 \<le> MAX_CONCURRENT_REQUESTS cfg \<Longrightarrow> BATCH_SIZE cfg < 0 \<Longrightarrow>
     process_batch env cfg cb files = Returned ([], [])"
  "MAX_CONCURRENT_REQUESTS cfg = 0 \<Longrightarrow> 0 < BATCH_SIZE cfg \<Longrightarrow> files \<noteq> [] \<Longrightarrow>
     process_batch env cfg cb files = Never_returns"
proof -
  show "process_batch env cfg cb files = Raised (ValueError ''range() arg 3 must not be zero'')"
    if "0 \<le> MAX_CONCURRENT_REQUESTS cfg" "BATCH_SIZE cfg = 0"
    using that by (simp add: process_batch_def py_range_def)
  show "process_batch env cfg cb files = Returned ([], [])"
    if "0 \<le> MAX_CONCURRENT_REQUESTS cfg" "BATCH_SIZE cfg < 0"
  proof -
    define x where "x = - int (length files) - BATCH_SIZE cfg - 1"
    have s: "0 < - BATCH_SIZE cfg" and x: "x < - BATCH_SIZE cfg" using that(2) by (simp_all add: x_def)
    have "x div (- BATCH_SIZE cfg) \<le> 0"
    proof (cases "0 \<le> x")
      case True
      then show ?thesis using x by (simp add: div_pos_pos_trivial)
    next
      case False
      then have "x div (- BATCH_SIZE cfg) < 0" using s by (simp add: div_neg_pos_less0)
      then show ?thesis by simp
    qed
    then have "(- int (length files) - BATCH_SIZE cfg - 1) div (- BATCH_SIZE cfg) \<le> 0"
      by (simp only: x_def)
    then show ?thesis using that by (simp add: process_batch_def py_range_def)
  qed
  show "process_batch env cfg cb files = Never_returns"
    if "MAX_CONCURRENT_REQUESTS cfg = 0" "0 < BATCH_SIZE cfg" "files \<noteq> []"
  proof -
    have "0 < length files" using that(3) by simp
    then have "nat (BATCH_SIZE cfg) \<le> length files + nat (BATCH_SIZE cfg) - 1" by arith
    then have "0 < (length files + nat (BATCH_SIZE cfg) - 1) div nat (BATCH_SIZE cfg)"
      using that(2) by (simp add: div_greater_zero_iff)
    then show ?thesis using that by (simp add: process_batch_def py_range_pos)
  qed
qed

section \<open>The calls of a run\<close>

lemma extract_text_events:
  "e \<in> set (snd (extract_text_from_file env i p)) \<Longrightarrow> event_item e = Some i"
  by (auto simp: extract_text_from_file_def Let_def split: if_splits sum.splits)

lemma analyze_events:
  assumes "e \<in> set (snd (analyze_single_resume env i p n))"
  shows "event_item e = Some i"
proof -
  obtain r evs where ex: "extract_text_from_file env i p = (r, evs)"
    by (cases "extract_text_from_file env i p")
  have evs: "\<forall>e \<in> set evs. event_item e = Some i"
    using extract_text_events[of _ env i p] ex by simp
  show ?thesis
    using assms evs
    by (auto simp: analyze_single_resume_def Let_def ex split: sum.splits)
qed

lemma task_events_item:
  assumes "e \<in> set (task_events env i file)"
  shows "event_item e = Some i"
proof -
  obtain ok msg where v: "validate_file file = (ok, msg)" by (cases "validate_file file")
  obtain s evs where sv: "save_uploaded_file env i file = (s, evs)"
    by (cases "save_uploaded_file env i file")
  have evs: "\<forall>e \<in> set evs. event_item e = Some i"
    using sv by (auto simp: save_uploaded_file_def split: sum.splits)
  show ?thesis
  proof (cases s)
    case (Inl x)
    with assms evs show ?thesis
      by (auto simp: task_events_def process_file_def v sv split: if_splits)
  next
    case (Inr path)
    obtain d evs2 where an: "analyze_single_resume env i path (name file) = (d, evs2)"
      by (cases "analyze_single_resume env i path (name file)")
    have evs2: "\<forall>e \<in> set evs2. event_item e = Some i"
      using analyze_events[of _ env i path "name file"] an by simp
    from assms evs evs2 show ?thesis
      by (auto simp: task_events_def process_file_def v sv Inr an cleanup_temp_file_def
          split: if_splits sum.splits)
  qed
qed

lemma is_chunk_event_iff: "is_chunk_event e \<longleftrightarrow> event_item e = None"
  by (cases e) simp_all

lemma progress_calls_append:
  "progress_calls (xs @ ys) = progress_calls xs @ progress_calls ys"
  by (induction xs rule: progress_calls.induct) simp_all

lemma sleep_calls_append:
  "sleep_calls (xs @ ys) = sleep_calls xs @ sleep_calls ys"
  by (induction xs rule: sleep_calls.induct) simp_all

lemma progress_calls_tasks:
  "\<forall>e \<in> set evs. event_item e \<noteq> None \<Longrightarrow> progress_calls evs = []"
  by (induction evs rule: progress_calls.induct) simp_all

lemma sleep_calls_tasks:
  "\<forall>e \<in> set evs. event_item e \<noteq> None \<Longrightarrow> sleep_calls evs = []"
  by (induction evs rule: sleep_calls.induct) simp_all

lemma chunk_events_tasks:
  "\<forall>e \<in> set evs. event_item e \<noteq> None \<Longrightarrow> filter is_chunk_event evs = []"
  by (induction evs) (simp_all add: is_chunk_event_iff)

lemma tasks_of_chunk_items:
  "\<forall>e \<in> set (concat (map (\<lambda>(j, file). task_events env j file) (enumerate s batch))).
     event_item e \<noteq> None"
  by (auto dest: task_events_item)

lemma progress_calls_concat:
  "progress_calls (concat (map f ks)) = concat (map (\<lambda>k. progress_calls (f k)) ks)"
  by (induction ks) (simp_all add: progress_calls_append)

lemma sleep_calls_concat:
  "sleep_calls (concat (map f ks)) = concat (map (\<lambda>k. sleep_calls (f k)) ks)"
  by (induction ks) (simp_all add: sleep_calls_append)

lemma progress_calls_chunk:
  "progress_calls (chunk_trace env cfg cb files k) =
     (if cb then [progress_value (int (k * nat (BATCH_SIZE cfg)))
                    (length (take (nat (BATCH_SIZE cfg)) (drop (k * nat (BATCH_SIZE cfg)) files)))
                    (length files)]
      else [])"
  unfolding chunk_trace_def Let_def progress_calls_append
  by (simp add: progress_calls_tasks[OF tasks_of_chunk_items])

lemma sleep_calls_chunk:
  "sleep_calls (chunk_trace env cfg cb files k) =
     (if int (k * nat (BATCH_SIZE cfg)) + BATCH_SIZE cfg < int (length files)
      then [RATE_LIMIT_DELAY cfg] else [])"
  unfolding chunk_trace_def Let_def sleep_calls_append
  by (simp add: sleep_calls_tasks[OF tasks_of_chunk_items])

lemma chunk_events_chunk:
  "filter is_chunk_event (chunk_trace env cfg cb files k) =
     (if cb then [ProgressCallback (progress_value (int (k * nat (BATCH_SIZE cfg)))
                    (length (take (nat (BATCH_SIZE cfg)) (drop (k * nat (BATCH_SIZE cfg)) files)))
                    (length files))]
      else [])
     @ (if int (k * nat (BATCH_SIZE cfg)) + BATCH_SIZE cfg < int (length files)
        then [Sleep (RATE_LIMIT_DELAY cfg)] else [])"
  unfolding chunk_trace_def Let_def filter_append
  by (simp add: chunk_events_tasks[OF tasks_of_chunk_items])

lemma length_chunks:
  assumes "0 < BATCH_SIZE cfg"
  shows "length (chunks cfg files) =
           (length files + nat (BATCH_SIZE cfg) - 1) div nat (BATCH_SIZE cfg)"
  using assms by (simp add: chunks_def py_range_pos)

lemma processed_count:
  assumes "k * b \<le> length files"
  shows "k * b + length (take b (drop (k * b) files)) = min ((k + 1) * b) (length files)"
  using assms by (auto simp: min_def)

lemma not_last_chunk:
  assumes "0 < (b::nat)" "k < (n + b - 1) div b"
  shows "(k + 1) * b < n \<longleftrightarrow> k + 1 < (n + b - 1) div b"
proof
  assume "(k + 1) * b < n"
  also have "n \<le> ((n + b - 1) div b) * b" using chunk_count_cover[OF assms(1)] .
  finally have "(k + 1) * b < ((n + b - 1) div b) * b" .
  then show "k + 1 < (n + b - 1) div b" by (simp only: mult_less_cancel2)
next
  assume "k + 1 < (n + b - 1) div b"
  then show "(k + 1) * b < n" using chunk_count_bounds[OF assms(1)] by blast
qed

lemma progress_value_processed:
  assumes "k * b \<le> length files"
  shows "progress_value (int (k * b)) (length (take b (drop (k * b) files))) (length files) =
         min (fl (fl (of_nat (min ((k + 1) * b) (length files)) / of_nat (length files)) * 100)) 100"
proof -
  have "int (k * b) + int (length (take b (drop (k * b) files))) =
        int (min ((k + 1) * b) (length files))"
    using processed_count[OF assms] by (simp only: of_nat_add[symmetric])
  then show ?thesis by (simp only: progress_value_def of_int_of_nat_eq)
qed

lemma progress_calls_batch:
  assumes "0 < BATCH_SIZE cfg"
  shows "progress_calls (concat (map (chunk_trace env cfg True files)
           [0 ..< length (chunks cfg files)])) =
         map (\<lambda>k. min (fl (fl (of_nat (min ((k + 1) * nat (BATCH_SIZE cfg)) (length files))
                                / of_nat (length files)) * 100)) 100)
           [0 ..< length (chunks cfg files)]"
proof -
  define b where "b = nat (BATCH_SIZE cfg)"
  have b: "0 < b" using assms by (simp add: b_def)
  have m: "length (chunks cfg files) = (length files + b - 1) div b"
    using length_chunks[OF assms] by (simp add: b_def)
  have "concat (map (\<lambda>k. progress_calls (chunk_trace env cfg True files k))
           [0 ..< length (chunks cfg files)]) =
        concat (map (\<lambda>k. [min (fl (fl (of_nat (min ((k + 1) * b) (length files))
                                / of_nat (length files)) * 100)) 100])
           [0 ..< length (chunks cfg files)])"
  proof (rule arg_cong[where f = concat], rule map_cong[OF refl])
    fix k assume "k \<in> set [0 ..< length (chunks cfg files)]"
    then have "k * b < length files" using chunk_count_bounds[OF b] m by simp
    then have "k * b \<le> length files" by simp
    from progress_value_processed[OF this]
    show "progress_calls (chunk_trace env cfg True files k) =
          [min (fl (fl (of_nat (min ((k + 1) * b) (length files))
                                / of_nat (length files)) * 100)) 100]"
      by (simp add: progress_calls_chunk b_def)
  qed
  then show ?thesis
    by (simp only: progress_calls_concat concat_map_singleton b_def)
qed

lemma sleep_calls_batch:
  assumes "0 < BATCH_SIZE cfg"
  shows "sleep_calls (concat (map (chunk_trace env cfg cb files)
           [0 ..< length (chunks cfg files)])) =
         replicate (length (chunks cfg files) - 1) (RATE_LIMIT_DELAY cfg)"
proof -
  define b where "b = nat (BATCH_SIZE cfg)"
  define m where "m = length (chunks cfg files)"
  have b: "0 < b" using assms by (simp add: b_def)
  have m: "m = (length files + b - 1) div b"
    using length_chunks[OF assms] by (simp add: b_def m_def)
  have cond: "int (k * b) + BATCH_SIZE cfg < int (length files) \<longleftrightarrow> k + 1 < m" if "k < m" for k
  proof -
    have "int (k * b) + BATCH_SIZE cfg = int ((k + 1) * b)" using assms by (simp add: b_def)
    then have "int (k * b) + BATCH_SIZE cfg < int (length files) \<longleftrightarrow> (k + 1) * b < length files"
      by (simp only: of_nat_less_iff)
    then show ?thesis using not_last_chunk[OF b, of k "length files"] that m by simp
  qed
  have "concat (map (\<lambda>k. sleep_calls (chunk_trace env cfg cb files k)) [0 ..< m]) =
        concat (map (\<lambda>k. if k + 1 < m then [RATE_LIMIT_DELAY cfg] else []) [0 ..< m])"
  proof (rule arg_cong[where f = concat], rule map_cong[OF refl])
    fix k assume "k \<in> set [0 ..< m]"
    then have "k < m" by simp
    from cond[OF this] show "sleep_calls (chunk_trace env cfg cb files k) =
        (if k + 1 < m then [RATE_LIMIT_DELAY cfg] else [])"
      by (simp add: sleep_calls_chunk b_def)
  qed
  also have "\<dots> = replicate (m - 1) (RATE_LIMIT_DELAY cfg)"
  proof (cases m)
    case 0
    then show ?thesis by simp
  next
    case (Suc m')
    have "map (\<lambda>k. if k + 1 < Suc m' then [RATE_LIMIT_DELAY cfg] else []) [0 ..< m'] =
          map (\<lambda>k. [RATE_LIMIT_DELAY cfg]) [0 ..< m']"
      by (rule map_cong[OF refl]) simp
    then show ?thesis
      by (simp add: Suc concat_map_singleton map_replicate_const)
  qed
  finally show ?thesis by (simp only: sleep_calls_concat m_def)
qed

lemma chunk_events_batch:
  assumes "0 < BATCH_SIZE cfg"
  shows "filter is_chunk_event (concat (map (chunk_trace env cfg cb files)
           [0 ..< length (chunks cfg files)])) =
         concat (map (\<lambda>k.
             (if cb then [ProgressCallback
                (min (fl (fl (of_nat (min ((k + 1) * nat (BATCH_SIZE cfg)) (length files))
                                / of_nat (length files)) * 100)) 100)] else [])
             @ (if k + 1 < length (chunks cfg files) then [Sleep (RATE_LIMIT_DELAY cfg)] else []))
           [0 ..< length (chunks cfg files)])"
proof -
  define b where "b = nat (BATCH_SIZE cfg)"
  define m where "m = length (chunks cfg files)"
  have b: "0 < b" using assms by (simp add: b_def)
  have m: "m = (length files + b - 1) div b"
    using length_chunks[OF assms] by (simp add: b_def m_def)
  have cond: "int (k * b) + BATCH_SIZE cfg < int (length files) \<longleftrightarrow> k + 1 < m" if "k < m" for k
  proof -
    have "int (k * b) + BATCH_SIZE cfg = int ((k + 1) * b)" using assms by (simp add: b_def)
    then have "int (k * b) + BATCH_SIZE cfg < int (length files) \<longleftrightarrow> (k + 1) * b < length files"
      by (simp only: of_nat_less_iff)
    then show ?thesis using not_last_chunk[OF b, of k "length files"] that m by simp
  qed
  have "map (\<lambda>k. filter is_chunk_event (chunk_trace env cfg cb files k)) [0 ..< m] =
        map (\<lambda>k.
             (if cb then [ProgressCallback
                (min (fl (fl (of_nat (min ((k + 1) * b) (length files))
                                / of_nat (length files)) * 100)) 100)] else [])
             @ (if k + 1 < m then [Sleep (RATE_LIMIT_DELAY cfg)] else [])) [0 ..< m]"
  proof (rule map_cong[OF refl])
    fix k assume "k \<in> set [0 ..< m]"
    then have k: "k < m" by simp
    then have "k * b < length files" using chunk_count_bounds[OF b] m by simp
    then have "k * b \<le> length files" by simp
    from progress_value_processed[OF this] cond[OF k]
    show "filter is_chunk_event (chunk_trace env cfg cb files k) =
        (if cb then [ProgressCallback
                (min (fl (fl (of_nat (min ((k + 1) * b) (length files))
                                / of_nat (length files)) * 100)) 100)] else [])
             @ (if k + 1 < m then [Sleep (RATE_LIMIT_DELAY cfg)] else [])"
      by (simp add: chunk_events_chunk b_def)
  qed
  then show ?thesis
    by (simp only: filter_concat map_map comp_def b_def m_def)
qed

lemma progress_formula_mono:
  assumes "k \<le> k'"
  shows "min (fl (fl (of_nat (min ((k + 1) * b) n) / of_nat n) * 100)) 100 \<le>
         min (fl (fl (of_nat (min ((k' + 1) * b) n) / of_nat n) * 100)) (100::rat)"
proof -
  have "min ((k + 1) * b) n \<le> min ((k' + 1) * b) n"
    using assms by (simp add: min_le_iff_disj)
  then have "(of_nat (min ((k + 1) * b) n) :: rat) \<le> of_nat (min ((k' + 1) * b) n)"
    by (simp only: of_nat_le_iff)
  then have q: "(of_nat (min ((k + 1) * b) n) :: rat) / of_nat n \<le>
             of_nat (min ((k' + 1) * b) n) / of_nat n"
    by (rule divide_right_mono) simp
  have "fl (of_nat (min ((k + 1) * b) n) / of_nat n) \<le> fl (of_nat (min ((k' + 1) * b) n) / of_nat n)"
    by (rule fl_mono[OF _ q]) simp
  moreover have "0 \<le> fl (of_nat (min ((k + 1) * b) n) / of_nat n)"
    using fl_mono[of 0 "of_nat (min ((k + 1) * b) n) / of_nat n"] by (simp add: fl_def)
  ultimately have "fl (fl (of_nat (min ((k + 1) * b) n) / of_nat n) * 100) \<le>
        fl (fl (of_nat (min ((k' + 1) * b) n) / of_nat n) * 100)"
    by (intro fl_mono) simp_all
  then show ?thesis by (simp add: min_le_iff_disj)
qed

lemma sorted_progress:
  "sorted (map (\<lambda>k. min (fl (fl (of_nat (min ((k + 1) * b) n) / of_nat n) * 100)) (100::rat))
     [0 ..< m])"
  unfolding sorted_map
proof (rule sorted_wrt_mono_rel[of _ "(\<le>)"])
  fix x y :: nat
  assume "x \<le> y"
  then show "min (fl (fl (of_nat (min ((x + 1) * b) n) / of_nat n) * 100)) 100 \<le>
         min (fl (fl (of_nat (min ((y + 1) * b) n) / of_nat n) * 100)) (100::rat)"
    by (rule progress_formula_mono)
next
  show "sorted_wrt (\<le>) [0 ..< m]" by simp
qed

lemma last_progress:
  assumes "0 < (b::nat)" "0 < n"
  shows "0 < (n + b - 1) div b"
    and "min (fl (fl (of_nat (min (((n + b - 1) div b - 1 + 1) * b) n) / of_nat n) * 100))
           (100::rat) = 100"
proof -
  have "b \<le> n + b - 1" using assms by simp
  then show pos: "0 < (n + b - 1) div b" using assms(1) by (simp add: div_greater_zero_iff)
  have "min (((n + b - 1) div b - 1 + 1) * b) n = n"
    using pos chunk_count_cover[OF assms(1), of n] by simp
  then show "min (fl (fl (of_nat (min (((n + b - 1) div b - 1 + 1) * b) n) / of_nat n) * 100))
           (100::rat) = 100"
    using assms(2) by (simp add: fl_1 fl_100)
qed

section \<open>The task of one file\<close>

lemma map_of_dict_set: "map_of (dict_set k v d) = (map_of d)(k \<mapsto> v)"
  by (induction d) (auto simp: fun_eq_iff)

lemma dict_set_twice: "dict_set k v' (dict_set k v d) = dict_set k v' d"
  by (induction d) auto

lemma dict_has_dict_set: "dict_has k' (dict_set k v d) \<longleftrightarrow> k' = k \<or> dict_has k' d"
  by (simp add: dict_has_def map_of_dict_set)

lemma dict_set_fresh: "map_of d k = None \<Longrightarrow> dict_set k v d = d @ [(k, v)]"
  by (induction d) (auto split: if_splits)

lemma has_metadata_iff:
  "has_metadata v \<longleftrightarrow> (\<exists>d md. v = JObj d \<and> map_of d ''analysis_metadata'' = Some (JObj md))"
  by (auto simp: has_metadata_def split: json.splits option.splits)

lemma handle_other_exception:
  assumes "\<forall>m. e \<noteq> JSONDecodeError m"
  shows "handle_exception e n r = Inr (analysis_failure e n)"
  using assms by (cases e) (simp_all add: handle_exception_def)

lemma handle_decode_error_unbound:
  "handle_exception (JSONDecodeError m) n None = Inr (parse_failure m n ''No response'')"
  by (simp add: handle_exception_def)

lemma handle_decode_error_bound:
  "handle_exception (JSONDecodeError m) n (Some (Response (Inr raw))) =
     Inr (parse_failure m n raw)"
  by (simp add: handle_exception_def)

lemma handle_decode_error_unreadable:
  "handle_exception (JSONDecodeError m) n (Some (Response (Inl e))) = Inl e"
  by (simp add: handle_exception_def)

lemma set_metadata_fails:
  assumes "\<not> has_metadata v"
  shows "\<exists>e. set_metadata env v key val = Inl e \<and> (\<forall>m. e \<noteq> JSONDecodeError m)"
  using assms
  by (auto simp: has_metadata_def set_metadata_def split: json.splits option.splits)

lemma set_metadata_stamps:
  assumes "map_of d ''analysis_metadata'' = Some (JObj md)"
  shows "set_metadata env (JObj d) key val =
           Inr (dict_set ''analysis_metadata'' (JObj (dict_set key (JStr val) md)) d)"
  using assms by (simp add: set_metadata_def)



lemma analyze_generate_fails:
  assumes "fst (extract_text_from_file env i p) = Inr t"
    and "generate_content env i (create_analysis_prompt t) = Inl e"
  shows "fst (analyze_single_resume env i p n) = handle_exception e n None"
  using assms
  by (cases "extract_text_from_file env i p") (simp add: analyze_single_resume_def)

lemma analyze_text_fails:
  assumes "fst (extract_text_from_file env i p) = Inr t"
    and "generate_content env i (create_analysis_prompt t) = Inr (Response (Inl e))"
  shows "fst (analyze_single_resume env i p n) =
           handle_exception e n (Some (Response (Inl e)))"
  using assms
  by (cases "extract_text_from_file env i p") (simp add: analyze_single_resume_def)

lemma analyze_decode_fails:
  assumes "fst (extract_text_from_file env i p) = Inr t"
    and "generate_content env i (create_analysis_prompt t) = Inr (Response (Inr raw))"
    and "json_loads env (strip raw) = Inl e"
  shows "fst (analyze_single_resume env i p n) =
           handle_exception e n (Some (Response (Inr raw)))"
  using assms
  by (cases "extract_text_from_file env i p") (simp add: analyze_single_resume_def)

lemma analyze_stamp_fails:
  assumes "fst (extract_text_from_file env i p) = Inr t"
    and "generate_content env i (create_analysis_prompt t) = Inr (Response (Inr raw))"
    and "json_loads env (strip raw) = Inr v"
    and "\<not> has_metadata v"
  shows "\<exists>e. set_metadata env v ''file_name'' n = Inl e \<and>
             fst (analyze_single_resume env i p n) = Inr (analysis_failure e n)"
proof -
  from set_metadata_fails[OF assms(4)] obtain e
    where e: "set_metadata env v ''file_name'' n = Inl e" "\<forall>m. e \<noteq> JSONDecodeError m"
    by blast
  have h: "handle_exception e n (Some (Response (Inr raw))) = Inr (analysis_failure e n)"
    using e(2) by (rule handle_other_exception)
  from assms(1-3) e(1) h
  have "fst (analyze_single_resume env i p n) = Inr (analysis_failure e n)"
    by (cases "extract_text_from_file env i p") (simp add: analyze_single_resume_def)
  with e(1) show ?thesis by blast
qed

lemma analyze_stamps:
  assumes "fst (extract_text_from_file env i p) = Inr t"
    and "generate_content env i (create_analysis_prompt t) = Inr (Response (Inr raw))"
    and "json_loads env (strip raw) = Inr (JObj d)"
    and "map_of d ''analysis_metadata'' = Some (JObj md)"
  shows "fst (analyze_single_resume env i p n) =
           Inr (dict_set ''analysis_metadata''
             (JObj (dict_set ''processing_timestamp'' (JStr (strftime env i))
                      (dict_set ''file_name'' (JStr n) md))) d)"
proof -
  let ?md1 = "dict_set ''file_name'' (JStr n) md"
  let ?d1 = "dict_set ''analysis_metadata'' (JObj ?md1) d"
  have s1: "set_metadata env (JObj d) ''file_name'' n = Inr ?d1"
    using assms(4) by (rule set_metadata_stamps)
  have "map_of ?d1 ''analysis_metadata'' = Some (JObj ?md1)"
    by (simp add: map_of_dict_set)
  then have s2: "set_metadata env (JObj ?d1) ''processing_timestamp'' (strftime env i) =
      Inr (dict_set ''analysis_metadata''
             (JObj (dict_set ''processing_timestamp'' (JStr (strftime env i)) ?md1)) ?d1)"
    by (rule set_metadata_stamps)
  from assms(1-3) s1 s2 show ?thesis
    by (cases "extract_text_from_file env i p")
       (simp add: analyze_single_resume_def dict_set_twice)
qed

lemma task_outcome_analyzed:
  assumes "fst (validate_file file)"
    and "fst (save_uploaded_file env i file) = Inr p"
    and "fst (analyze_single_resume env i p (name file)) = Inr d"
  shows "task_outcome env i file = dict_set ''file_info'' (JObj (get_file_info file)) d"
  using assms
  by (cases "validate_file file"; cases "save_uploaded_file env i file";
      cases "analyze_single_resume env i p (name file)")
     (simp add: task_outcome_def process_file_def settle_def)

lemma task_raised:
  assumes "fst (validate_file file)"
    and "fst (save_uploaded_file env i file) = Inr p"
    and "fst (analyze_single_resume env i p (name file)) = Inl e"
  shows "fst (process_file env i file) = Inl e"
  using assms
  by (cases "validate_file file"; cases "save_uploaded_file env i file";
      cases "analyze_single_resume env i p (name file)")
     (simp add: process_file_def)

lemma task_outcome_invalid:
  assumes "\<not> fst (validate_file file)"
  shows "process_file env i file =
           (Inr (validation_failure (snd (validate_file file)) (name file)), [])"
  using assms
  by (cases "validate_file file") (simp add: process_file_def)

lemma task_outcome_unsaved:
  assumes "fst (validate_file file)"
    and "fst (save_uploaded_file env i file) = Inl e"
  shows "fst (process_file env i file) = Inl e"
  using assms
  by (cases "validate_file file"; cases "save_uploaded_file env i file")
     (simp add: process_file_def)

lemma file_info_appended:
  assumes "map_of d ''file_info'' = None"
  shows "dict_set ''file_info'' v d = d @ [(''file_info'', v)]"
  using assms by (rule dict_set_fresh)

lemma chunked_enumerate:
  "concat (map (\<lambda>k. concat (map g (enumerate (k * b) (take b (drop (k * b) files)))))
     [0 ..< m]) =
   concat (map g (enumerate 0 (take (m * b) files)))"
proof (induction m)
  case 0
  show ?case by simp
next
  case (Suc m)
  have tk: "take (Suc m * b) files = take (m * b) files @ take b (drop (m * b) files)"
  proof -
    have "Suc m * b = m * b + b" by simp
    then show ?thesis by (simp only: take_add)
  qed
  have en: "enumerate (length (take (m * b) files)) (take b (drop (m * b) files)) =
            enumerate (m * b) (take b (drop (m * b) files))"
  proof (cases "m * b \<le> length files")
    case True
    then show ?thesis by (simp add: min_def)
  next
    case False
    then show ?thesis by simp
  qed
  show ?case
    by (simp only: upt_Suc_append[OF le0] map_append concat_append Suc.IH tk
          enumerate_append_eq en add_0 list.map concat.simps append_Nil2)
qed

lemma item_events_enumerate:
  "concat (map (\<lambda>(j, file). filter (\<lambda>e. event_item e = Some i) (task_events env j file))
     (enumerate s xs)) =
   (if s \<le> i \<and> i < s + length xs then task_events env i (xs ! (i - s)) else [])"
proof (induction xs arbitrary: s)
  case Nil
  show ?case by auto
next
  case (Cons x xs)
  have own: "filter (\<lambda>e. event_item e = Some i) (task_events env i x) = task_events env i x"
    by (rule filter_True) (simp add: task_events_item)
  have other: "filter (\<lambda>e. event_item e = Some i) (task_events env s x) = []" if "s \<noteq> i"
    using that by (auto simp: filter_empty_conv dest: task_events_item)
  show ?case
  proof (cases "s = i")
    case True
    then show ?thesis by (simp add: Cons.IH own)
  next
    case False
    then show ?thesis by (auto simp: Cons.IH other Suc_diff_le nth_Cons')
  qed
qed

lemma item_events_chunk:
  "filter (\<lambda>e. event_item e = Some i) (chunk_trace env cfg cb files k) =
   concat (map (\<lambda>(j, file). filter (\<lambda>e. event_item e = Some i) (task_events env j file))
     (enumerate (k * nat (BATCH_SIZE cfg))
        (take (nat (BATCH_SIZE cfg)) (drop (k * nat (BATCH_SIZE cfg)) files))))"
  unfolding chunk_trace_def Let_def
  by (simp add: filter_concat comp_def case_prod_unfold)

lemma batch_item_events:
  assumes "0 < BATCH_SIZE cfg" and "i < length files"
  shows "filter (\<lambda>e. event_item e = Some i)
           (concat (map (chunk_trace env cfg cb files) [0 ..< length (chunks cfg files)])) =
         task_events env i (files ! i)"
proof -
  define b where "b = nat (BATCH_SIZE cfg)"
  define m where "m = length (chunks cfg files)"
  have b: "0 < b" using assms(1) by (simp add: b_def)
  have m: "m = (length files + b - 1) div b"
    using length_chunks[OF assms(1)] by (simp add: b_def m_def)
  have all: "take (m * b) files = files"
    using chunk_count_cover[OF b, of "length files"] by (simp add: m)
  have "filter (\<lambda>e. event_item e = Some i)
           (concat (map (chunk_trace env cfg cb files) [0 ..< m])) =
        concat (map (\<lambda>k. concat (map
            (\<lambda>(j, file). filter (\<lambda>e. event_item e = Some i) (task_events env j file))
            (enumerate (k * b) (take b (drop (k * b) files))))) [0 ..< m])"
    by (simp add: filter_concat comp_def item_events_chunk b_def)
  also have "\<dots> = concat (map
            (\<lambda>(j, file). filter (\<lambda>e. event_item e = Some i) (task_events env j file))
            (enumerate 0 files))"
    by (simp only: chunked_enumerate all)
  also have "\<dots> = task_events env i (files ! i)"
    using assms(2) by (simp add: item_events_enumerate)
  finally show ?thesis by (simp only: m_def)
qed

lemma fl_nonpos:
  assumes "x \<le> 0" shows "fl x \<le> 0"
proof (cases "x = 0")
  case True
  then show ?thesis by (simp add: fl_def)
next
  case False
  with assms have neg: "x < 0" by simp
  define u where "u = (2::rat) powi (floor_log2 \<bar>x\<bar> - 52)"
  have u: "0 < u" by (simp add: u_def)
  have "0 \<le> \<bar>x\<bar> / u" using u by simp
  then have "round_half_even 0 \<le> round_half_even (\<bar>x\<bar> / u)" by (rule round_half_even_mono)
  then have "0 \<le> round_half_even (\<bar>x\<bar> / u)" by (simp add: round_half_even_def)
  then have "(0::rat) \<le> of_int (round_half_even (\<bar>x\<bar> / u)) * u" using u by simp
  then show ?thesis using neg by (simp add: fl_def Let_def u_def)
qed

lemma size_check:
  "MAX_FILE_SIZE_MB < fl (of_int n / (1024 * 1024)) \<longleftrightarrow> 10 * 1024 * 1024 < n"
proof
  assume big: "MAX_FILE_SIZE_MB < fl (of_int n / (1024 * 1024))"
  show "10 * 1024 * 1024 < n"
  proof (rule ccontr)
    assume "\<not> 10 * 1024 * 1024 < n"
    then have le: "n \<le> 10485760" by simp
    have "fl (of_int n / (1024 * 1024)) \<le> 10"
    proof (cases "n \<le> 0")
      case True
      then have "(of_int n :: rat) / (1024 * 1024) \<le> 0" by (simp add: divide_le_0_iff)
      from fl_nonpos[OF this] show ?thesis by simp
    next
      case False
      then have "(0::rat) \<le> of_int n / (1024 * 1024)" by simp
      moreover have "(of_int n :: rat) / (1024 * 1024) \<le> 10" using le by simp
      ultimately have "fl (of_int n / (1024 * 1024)) \<le> fl 10" by (rule fl_mono)
      then show ?thesis by (simp only: fl_10)
    qed
    with big show False by (simp add: MAX_FILE_SIZE_MB_def)
  qed
next
  assume "10 * 1024 * 1024 < n"
  then have "10485761 \<le> n" by simp
  then have "(10485761 :: rat) \<le> of_int n" by (metis of_int_le_iff of_int_numeral)
  then have "(10485761 / 1048576 :: rat) \<le> of_int n / (1024 * 1024)" by simp
  then have "fl (10485761 / 1048576) \<le> fl (of_int n / (1024 * 1024))"
    by (intro fl_mono) simp_all
  moreover have "fl (10485761 / 1048576) = 10485761 / 1048576" by code_simp
  ultimately show "MAX_FILE_SIZE_MB < fl (of_int n / (1024 * 1024))"
    by (simp add: MAX_FILE_SIZE_MB_def)
qed

lemma validate_file_cases:
  "validate_file file =
     (if lower (snd (splitext (name file))) \<notin> set SUPPORTED_FORMATS
      then (False, unsupported_format)
      else if 10 * 1024 * 1024 < size_bytes file then (False, file_too_large)
      else (True, ''File is valid''))"
  using size_check[of "size_bytes file"] by (simp add: validate_file_def Let_def)

lemma process_batch_run:
  assumes "0 < BATCH_SIZE cfg" and "0 < MAX_CONCURRENT_REQUESTS cfg"
  shows "process_batch env cfg cb files =
     Returned (map (\<lambda>(j, file). task_outcome env j file) (enumerate 0 files),
               concat (map (chunk_trace env cfg cb files) [0 ..< length (chunks cfg files)]))"
  using process_batch_returns[OF assms, of env cb files] length_chunks[OF assms(1), of files]
  by simp

lemma chunk_trace_explicit:
  assumes "0 < BATCH_SIZE cfg"
    and "k < (length files + nat (BATCH_SIZE cfg) - 1) div nat (BATCH_SIZE cfg)"
  shows "chunk_trace env cfg cb files k =
     concat (map (\<lambda>(j, file). task_events env j file)
       (enumerate (k * nat (BATCH_SIZE cfg))
          (take (nat (BATCH_SIZE cfg)) (drop (k * nat (BATCH_SIZE cfg)) files))))
     @ (if cb
        then [ProgressCallback
               (min (fl (fl (of_nat (min ((k + 1) * nat (BATCH_SIZE cfg)) (length files))
                             / of_nat (length files)) * 100)) 100)]
        else [])
     @ (if k + 1 < (length files + nat (BATCH_SIZE cfg) - 1) div nat (BATCH_SIZE cfg)
        then [Sleep (RATE_LIMIT_DELAY cfg)] else [])"
proof -
  define b where "b = nat (BATCH_SIZE cfg)"
  have b: "0 < b" using assms(1) by (simp add: b_def)
  have k: "k < (length files + b - 1) div b" using assms(2) by (simp only: b_def)
  have "k * b < length files" using chunk_count_bounds[OF b k] .
  then have le: "k * b \<le> length files" by simp
  have "int (k * b) + BATCH_SIZE cfg = int ((k + 1) * b)" using assms(1) by (simp add: b_def)
  then have "int (k * b) + BATCH_SIZE cfg < int (length files) \<longleftrightarrow> (k + 1) * b < length files"
    by (simp only: of_nat_less_iff)
  then have cond: "int (k * b) + BATCH_SIZE cfg < int (length files) \<longleftrightarrow>
      k + 1 < (length files + b - 1) div b"
    using not_last_chunk[OF b k] by simp
  show ?thesis
    unfolding chunk_trace_def Let_def b_def[symmetric]
    by (simp only: progress_value_processed[OF le] cond)
qed

lemma batch_trace_explicit:
  assumes "0 < BATCH_SIZE cfg"
  shows "concat (map (chunk_trace env cfg cb files)
           [0 ..< (length files + nat (BATCH_SIZE cfg) - 1) div nat (BATCH_SIZE cfg)]) =
     concat (map (\<lambda>k.
         concat (map (\<lambda>(j, file). task_events env j file)
           (enumerate (k * nat (BATCH_SIZE cfg))
              (take (nat (BATCH_SIZE cfg)) (drop (k * nat (BATCH_SIZE cfg)) files))))
         @ (if cb
            then [ProgressCallback
                   (min (fl (fl (of_nat (min ((k + 1) * nat (BATCH_SIZE cfg)) (length files))
                                 / of_nat (length files)) * 100)) 100)]
            else [])
         @ (if k + 1 < (length files + nat (BATCH_SIZE cfg) - 1) div nat (BATCH_SIZE cfg)
            then [Sleep (RATE_LIMIT_DELAY cfg)] else []))
       [0 ..< (length files + nat (BATCH_SIZE cfg) - 1) div nat (BATCH_SIZE cfg)])"
proof (rule arg_cong[where f = concat], rule map_cong[OF refl])
  fix k
  assume "k \<in> set [0 ..< (length files + nat (BATCH_SIZE cfg) - 1) div nat (BATCH_SIZE cfg)]"
  then have "k < (length files + nat (BATCH_SIZE cfg) - 1) div nat (BATCH_SIZE cfg)" by simp
  then show "chunk_trace env cfg cb files k =
     concat (map (\<lambda>(j, file). task_events env j file)
       (enumerate (k * nat (BATCH_SIZE cfg))
          (take (nat (BATCH_SIZE cfg)) (drop (k * nat (BATCH_SIZE cfg)) files))))
     @ (if cb
        then [ProgressCallback
               (min (fl (fl (of_nat (min ((k + 1) * nat (BATCH_SIZE cfg)) (length files))
                             / of_nat (length files)) * 100)) 100)]
        else [])
     @ (if k + 1 < (length files + nat (BATCH_SIZE cfg) - 1) div nat (BATCH_SIZE cfg)
        then [Sleep (RATE_LIMIT_DELAY cfg)] else [])"
    by (rule chunk_trace_explicit[OF assms])
qed

lemma chunks_cover:
  assumes "0 < (b::nat)"
  shows "concat (map (\<lambda>k. take b (drop (k * b) files)) [0 ..< (length files + b - 1) div b]) =
         files"
proof -
  have "concat (map (\<lambda>k. take b (drop (k * b) files)) [0 ..< m]) = take (m * b) files" for m
  proof (induction m)
    case 0
    show ?case by simp
  next
    case (Suc m)
    have "Suc m * b = m * b + b" by simp
    then have "take (Suc m * b) files = take (m * b) files @ take b (drop (m * b) files)"
      by (simp only: take_add)
    then show ?case by (simp add: Suc.IH)
  qed
  then show ?thesis using chunk_count_cover[OF assms, of "length files"] by simp
qed

lemma chunks_nonempty:
  assumes "0 < (b::nat)" and "k < (length files + b - 1) div b"
  shows "take b (drop (k * b) files) \<noteq> []"
  using chunk_count_bounds[OF assms] assms(1) by simp

lemma task_events_no_chunk_event:
  "e \<in> set (task_events env j file) \<Longrightarrow> \<not> is_chunk_event e"
  by (simp add: is_chunk_event_iff task_events_item)

section \<open>The outcomes of a batch\<close>

text \<open>
  C1. With a positive batch size and a positive number of concurrent requests,
  \<^verbatim>\<open>process_batch\<close> returns, its list of outcomes is as long as the list of files,
  and the outcome at each index is the outcome of the task of the file at that index,
  whether or not a progress callback is given: the dictionary the task returned, or, when
  the task raised, the dictionary made from the exception and the name of that file.
\<close>

theorem process_batch_one_outcome_per_item:
  assumes "0 < BATCH_SIZE cfg" and "0 < MAX_CONCURRENT_REQUESTS cfg"
  shows "\<exists>results evs.
           process_batch env cfg progress_callback files = Returned (results, evs) \<and>
           length results = length files \<and>
           (\<forall>i < length files. results ! i = task_outcome env i (files ! i)) \<and>
           (\<forall>i < length files.
              results ! i =
                (case fst (process_file env i (files ! i)) of
                   Inl e \<Rightarrow> [(''error'', JStr (''Processing error: '' @ str_exn e)),
                             (''file_name'', JStr (name (files ! i)))]
                 | Inr r \<Rightarrow> r))"
proof -
  let ?results = "map (\<lambda>(j, file). task_outcome env j file) (enumerate 0 files)"
  have "length ?results = length files" by simp
  moreover have nth: "\<forall>i < length files. ?results ! i = task_outcome env i (files ! i)"
    by (simp add: nth_enumerate_eq)
  moreover have "\<forall>i < length files.
              ?results ! i =
                (case fst (process_file env i (files ! i)) of
                   Inl e \<Rightarrow> [(''error'', JStr (''Processing error: '' @ str_exn e)),
                             (''file_name'', JStr (name (files ! i)))]
                 | Inr r \<Rightarrow> r)"
    using nth by (simp add: task_outcome_def settle_def processing_failure_def split: sum.splits)
  ultimately show ?thesis
    using process_batch_returns[OF assms, of env progress_callback files] by blast
qed

theorem process_batch_one_outcome_per_item_witness:
  "\<exists>results evs.
     process_batch demo_env demo_config True demo_files = Returned (results, evs) \<and>
     length results = 7 \<and>
     results ! 4 =
       [(''error'', JStr ''Processing error: Error saving uploaded file: disk full''),
        (''file_name'', JStr ''cv4.pdf'')] \<and>
     results ! 5 =
       [(''error'', JStr ''Unsupported file format. Please upload PDF or DOCX files.''),
        (''file_name'', JStr ''notes.txt'')]"
proof -
  have cfg: "0 < BATCH_SIZE demo_config" "0 < MAX_CONCURRENT_REQUESTS demo_config"
    by (simp_all add: demo_config_def)
  have len: "length demo_files = 7" by (simp add: demo_files_def)
  have o4: "task_outcome demo_env 4 (demo_files ! 4) =
      [(''error'', JStr ''Processing error: Error saving uploaded file: disk full''),
       (''file_name'', JStr ''cv4.pdf'')]"
    by code_simp
  have o5: "task_outcome demo_env 5 (demo_files ! 5) =
      [(''error'', JStr ''Unsupported file format. Please upload PDF or DOCX files.''),
       (''file_name'', JStr ''notes.txt'')]"
    by code_simp
  from process_batch_one_outcome_per_item[OF cfg, of demo_env True demo_files]
  obtain results evs where
    r: "process_batch demo_env demo_config True demo_files = Returned (results, evs)"
       "length results = length demo_files"
       "\<forall>i < length demo_files. results ! i = task_outcome demo_env i (demo_files ! i)"
    by (elim exE conjE) (rule that, assumption+)
  have i4: "4 < length demo_files" and i5: "5 < length demo_files" by (simp_all add: len)
  note r4 = r(3)[THEN spec, of 4, THEN mp, OF i4, unfolded o4]
  note r5 = r(3)[THEN spec, of 5, THEN mp, OF i5, unfolded o5]
  from r(1) r(2)[unfolded len] r4 r5 show ?thesis by (intro exI conjI)
qed

section \<open>Progress reports and delays\<close>

lemma chunks_nth:
  assumes "0 < BATCH_SIZE cfg" and "k < length (chunks cfg files)"
  shows "chunks cfg files ! k = take (nat (BATCH_SIZE cfg)) (drop (k * nat (BATCH_SIZE cfg)) files)"
proof -
  have k: "k < (length files + nat (BATCH_SIZE cfg) - 1) div nat (BATCH_SIZE cfg)"
    using assms(2) length_chunks[OF assms(1), of files] by simp
  have "nat (int k * BATCH_SIZE cfg) = k * nat (BATCH_SIZE cfg)"
    using assms(1) by (simp add: nat_mult_distrib)
  then show ?thesis
    using assms(1) k by (simp add: chunks_def py_range_pos)
qed

lemma batch_trace_chunks:
  assumes "0 < BATCH_SIZE cfg"
  shows "concat (map (chunk_trace env cfg cb files) [0 ..< length (chunks cfg files)]) =
     concat (map (\<lambda>k.
         concat (map (\<lambda>(j, file). task_events env j file)
           (enumerate (k * nat (BATCH_SIZE cfg))
              (take (nat (BATCH_SIZE cfg)) (drop (k * nat (BATCH_SIZE cfg)) files))))
         @ (if cb
            then [ProgressCallback
                   (min (fl (fl (of_nat (min ((k + 1) * nat (BATCH_SIZE cfg)) (length files))
                                 / of_nat (length files)) * 100)) 100)]
            else [])
         @ (if k + 1 < length (chunks cfg files) then [Sleep (RATE_LIMIT_DELAY cfg)] else []))
       [0 ..< length (chunks cfg files)])"
  unfolding length_chunks[OF assms] by (rule batch_trace_explicit[OF assms])

lemma trace_25_10:
  assumes "length files = 25" and "BATCH_SIZE cfg = 10"
  shows "concat (map (\<lambda>k.
         concat (map (\<lambda>(j, file). task_events env j file)
           (enumerate (k * nat (BATCH_SIZE cfg))
              (take (nat (BATCH_SIZE cfg)) (drop (k * nat (BATCH_SIZE cfg)) files))))
         @ (if cb
            then [ProgressCallback
                   (min (fl (fl (of_nat (min ((k + 1) * nat (BATCH_SIZE cfg)) (length files))
                                 / of_nat (length files)) * 100)) 100)]
            else [])
         @ (if k + 1 < (3::nat) then [Sleep (RATE_LIMIT_DELAY cfg)] else []))
       [0 ..< 3]) =
     concat (map (\<lambda>(j, file). task_events env j file) (enumerate 0 (take 10 files)))
     @ (if cb then [ProgressCallback 40] else []) @ [Sleep (RATE_LIMIT_DELAY cfg)]
     @ concat (map (\<lambda>(j, file). task_events env j file)
         (enumerate 10 (take 10 (drop 10 files))))
     @ (if cb then [ProgressCallback 80] else []) @ [Sleep (RATE_LIMIT_DELAY cfg)]
     @ concat (map (\<lambda>(j, file). task_events env j file) (enumerate 20 (drop 20 files)))
     @ (if cb then [ProgressCallback 100] else [])"
proof -
  have up: "[0 ..< 3] = [0, 1, 2]" by code_simp
  have v1: "min (fl (fl (10 / 25) * 100)) (100::rat) = 40" by code_simp
  have v2: "min (fl (fl (20 / 25) * 100)) (100::rat) = 80" by code_simp
  have v3: "min (fl (fl (25 / 25) * 100)) (100::rat) = 100" by code_simp
  have t: "take 10 (drop 20 files) = drop 20 files" using assms(1) by simp
  show ?thesis using v1 v2 v3 by (simp add: up assms t)
qed

text \<open>
  C6. With a positive batch size and a positive number of concurrent requests, a run with a
  progress callback returns and calls the callback once for each chunk, in order, the call
  after chunk \<open>k\<close> (counted from 0) with the float
  \<^verbatim>\<open>min(processed / total * 100, 100)\<close>, where \<open>processed\<close> is the number of files of
  the chunks up to \<open>k\<close>; the values reported never decrease; when there is a file the
  last value is exactly 100; and for no files the callback is never called, nothing else
  happens, and the list returned is empty. The call for a chunk comes after the calls of
  the tasks of that chunk and before those of the next chunk: the calls of the run are,
  chunk after chunk, the calls of the tasks of the chunk in the order of the files, the
  progress report, and the delay when the chunk is not the last one.
\<close>

theorem progress_callback_reports:
  assumes "0 < BATCH_SIZE cfg" and "0 < MAX_CONCURRENT_REQUESTS cfg"
  shows "\<exists>results evs.
     process_batch env cfg True files = Returned (results, evs) \<and>
     progress_calls evs =
       map (\<lambda>k. min (fl (fl (of_nat (min ((k + 1) * nat (BATCH_SIZE cfg)) (length files))
                              / of_nat (length files)) * 100)) 100)
         [0 ..< length (chunks cfg files)] \<and>
     sorted (progress_calls evs) \<and>
     (files \<noteq> [] \<longrightarrow> progress_calls evs \<noteq> [] \<and> last (progress_calls evs) = 100) \<and>
     (files = [] \<longrightarrow> results = [] \<and> evs = []) \<and>
     evs =
       concat (map (\<lambda>k.
           concat (map (\<lambda>(j, file). task_events env j file)
             (enumerate (k * nat (BATCH_SIZE cfg))
                (take (nat (BATCH_SIZE cfg)) (drop (k * nat (BATCH_SIZE cfg)) files))))
           @ [ProgressCallback
                (min (fl (fl (of_nat (min ((k + 1) * nat (BATCH_SIZE cfg)) (length files))
                              / of_nat (length files)) * 100)) 100)]
           @ (if k + 1 < length (chunks cfg files) then [Sleep (RATE_LIMIT_DELAY cfg)] else []))
         [0 ..< length (chunks cfg files)])"
proof -
  define b where "b = nat (BATCH_SIZE cfg)"
  define m where "m = length (chunks cfg files)"
  define F where "F = (\<lambda>k. min (fl (fl (of_nat (min ((k + 1) * b) (length files))
                              / of_nat (length files)) * 100)) (100::rat))"
  define evs where "evs = concat (map (chunk_trace env cfg True files) [0 ..< m])"
  define results where "results = map (\<lambda>(j, file). task_outcome env j file) (enumerate 0 files)"
  have b: "0 < b" using assms(1) by (simp add: b_def)
  have m: "m = (length files + b - 1) div b"
    using length_chunks[OF assms(1)] by (simp add: b_def m_def)
  have run: "process_batch env cfg True files = Returned (results, evs)"
    using process_batch_returns[OF assms, of env True files]
    by (simp add: results_def evs_def m b_def)
  have calls: "progress_calls evs = map F [0 ..< m]"
    using progress_calls_batch[OF assms(1), of env files]
    by (simp add: evs_def m_def F_def b_def)
  have sorted: "sorted (progress_calls evs)"
    unfolding calls F_def by (rule sorted_progress)
  have last: "progress_calls evs \<noteq> [] \<and> last (progress_calls evs) = 100" if "files \<noteq> []"
  proof -
    from that have n: "0 < length files" by simp
    have pos: "0 < m" using last_progress(1)[OF b n] m by simp
    then have "last (map F [0 ..< m]) = F (m - 1)"
      by (simp add: last_map last_upt)
    also have "\<dots> = 100" using last_progress(2)[OF b n] by (simp add: F_def m)
    finally show ?thesis using pos by (simp add: calls)
  qed
  have empty: "results = [] \<and> evs = []" if "files = []"
    using that b by (simp add: results_def evs_def m)
  have trace: "evs =
       concat (map (\<lambda>k.
           concat (map (\<lambda>(j, file). task_events env j file)
             (enumerate (k * nat (BATCH_SIZE cfg))
                (take (nat (BATCH_SIZE cfg)) (drop (k * nat (BATCH_SIZE cfg)) files))))
           @ [ProgressCallback
                (min (fl (fl (of_nat (min ((k + 1) * nat (BATCH_SIZE cfg)) (length files))
                              / of_nat (length files)) * 100)) 100)]
           @ (if k + 1 < length (chunks cfg files) then [Sleep (RATE_LIMIT_DELAY cfg)] else []))
         [0 ..< length (chunks cfg files)])"
    using batch_trace_chunks[OF assms(1), of env True files] by (simp add: evs_def m_def)
  from run calls sorted last empty trace show ?thesis
    unfolding F_def b_def m_def by blast
qed

theorem progress_callback_reports_witness:
  "\<exists>results evs.
     process_batch demo_env demo_config True demo_files = Returned (results, evs) \<and>
     progress_calls evs = [fl (fl (3 / 7) * 100), fl (fl (6 / 7) * 100), 100] \<and>
     sorted (progress_calls evs) \<and> last (progress_calls evs) = 100"
proof -
  have cfg: "0 < BATCH_SIZE demo_config" "0 < MAX_CONCURRENT_REQUESTS demo_config"
    by (simp_all add: demo_config_def)
  have ne: "demo_files \<noteq> []" by (simp add: demo_files_def)
  have vals: "map (\<lambda>k. min (fl (fl (of_nat (min ((k + 1) * nat (BATCH_SIZE demo_config))
                  (length demo_files)) / of_nat (length demo_files)) * 100)) 100)
         [0 ..< length (chunks demo_config demo_files)] =
       [fl (fl (3 / 7) * 100), fl (fl (6 / 7) * 100), 100]"
    by code_simp
  from progress_callback_reports[OF cfg, of demo_env demo_files] ne vals
  show ?thesis by auto
qed

lemma chunks_25_10:
  assumes "length files = 25" and "BATCH_SIZE cfg = 10"
  shows "length (chunks cfg files) = 3" and "map length (chunks cfg files) = [10, 10, 5]"
proof -
  have range: "py_range 0 25 10 = Inr [0, 10, 20]" by code_simp
  have ch: "chunks cfg files = map (\<lambda>i. take 10 (drop (nat i) files)) [0, 10, 20]"
    using assms by (simp add: chunks_def range)
  show "length (chunks cfg files) = 3" by (simp add: ch)
  show "map length (chunks cfg files) = [10, 10, 5]" using assms(1) by (simp add: ch)
qed

text \<open>
  C7. With a positive batch size and a positive number of concurrent requests, a run
  returns, and its calls are, chunk after chunk: the calls of the tasks of the chunk, in the
  order of the files; then the progress report of the chunk (when a callback is given);
  then the delay, which is left out after the last chunk only. So every delay stands
  between the last call of one chunk and the first call of the next. The chunks are not
  empty and together they are the list of files; no task reports progress or awaits the
  delay; there is one delay less than there are chunks, and none when the batch size is at
  least the number of files. For 25 files and a batch size of 10 the chunks have 10, 10 and
  5 files, the run is the tasks of the first ten files, the report 40, the delay, the tasks
  of the next ten files, the report 80, the delay, the tasks of the last five files and the
  report 100.
\<close>

theorem inter_chunk_delay:
  assumes "0 < BATCH_SIZE cfg" and "0 < MAX_CONCURRENT_REQUESTS cfg"
  shows "\<exists>results evs.
     process_batch env cfg progress_callback files = Returned (results, evs) \<and>
     evs =
       concat (map (\<lambda>k.
           concat (map (\<lambda>(j, file). task_events env j file)
             (enumerate (k * nat (BATCH_SIZE cfg))
                (take (nat (BATCH_SIZE cfg)) (drop (k * nat (BATCH_SIZE cfg)) files))))
           @ (if progress_callback
              then [ProgressCallback
                     (min (fl (fl (of_nat (min ((k + 1) * nat (BATCH_SIZE cfg)) (length files))
                                   / of_nat (length files)) * 100)) 100)]
              else [])
           @ (if k + 1 < length (chunks cfg files) then [Sleep (RATE_LIMIT_DELAY cfg)] else []))
         [0 ..< length (chunks cfg files)]) \<and>
     (\<forall>k < length (chunks cfg files).
        chunks cfg files ! k =
          take (nat (BATCH_SIZE cfg)) (drop (k * nat (BATCH_SIZE cfg)) files) \<and>
        chunks cfg files ! k \<noteq> []) \<and>
     concat (chunks cfg files) = files \<and>
     (\<forall>j file e. e \<in> set (task_events env j file) \<longrightarrow>
        (\<forall>d. e \<noteq> Sleep d) \<and> (\<forall>v. e \<noteq> ProgressCallback v)) \<and>
     filter is_chunk_event evs =
       concat (map (\<lambda>k.
           (if progress_callback
            then [ProgressCallback
                   (min (fl (fl (of_nat (min ((k + 1) * nat (BATCH_SIZE cfg)) (length files))
                                 / of_nat (length files)) * 100)) 100)]
            else [])
           @ (if k + 1 < length (chunks cfg files) then [Sleep (RATE_LIMIT_DELAY cfg)] else []))
         [0 ..< length (chunks cfg files)]) \<and>
     sleep_calls evs = replicate (length (chunks cfg files) - 1) (RATE_LIMIT_DELAY cfg) \<and>
     (int (length files) \<le> BATCH_SIZE cfg \<longrightarrow> sleep_calls evs = []) \<and>
     (length files = 25 \<and> BATCH_SIZE cfg = 10 \<longrightarrow>
        map length (chunks cfg files) = [10, 10, 5] \<and>
        evs =
          concat (map (\<lambda>(j, file). task_events env j file) (enumerate 0 (take 10 files)))
          @ (if progress_callback then [ProgressCallback 40] else [])
          @ [Sleep (RATE_LIMIT_DELAY cfg)]
          @ concat (map (\<lambda>(j, file). task_events env j file)
              (enumerate 10 (take 10 (drop 10 files))))
          @ (if progress_callback then [ProgressCallback 80] else [])
          @ [Sleep (RATE_LIMIT_DELAY cfg)]
          @ concat (map (\<lambda>(j, file). task_events env j file) (enumerate 20 (drop 20 files)))
          @ (if progress_callback then [ProgressCallback 100] else []) \<and>
        sleep_calls evs = [RATE_LIMIT_DELAY cfg, RATE_LIMIT_DELAY cfg] \<and>
        (progress_callback \<longrightarrow> progress_calls evs = [40, 80, 100]))"
proof -
  define b where "b = nat (BATCH_SIZE cfg)"
  define m where "m = length (chunks cfg files)"
  define evs where "evs = concat (map (chunk_trace env cfg progress_callback files) [0 ..< m])"
  define results where "results = map (\<lambda>(j, file). task_outcome env j file) (enumerate 0 files)"
  have b: "0 < b" using assms(1) by (simp add: b_def)
  have m: "m = (length files + b - 1) div b"
    using length_chunks[OF assms(1)] by (simp add: b_def m_def)
  have run: "process_batch env cfg progress_callback files = Returned (results, evs)"
    using process_batch_returns[OF assms, of env progress_callback files]
    by (simp add: results_def evs_def m b_def)
  note trace = batch_trace_chunks[OF assms(1), of env progress_callback files,
      folded m_def, folded evs_def]
  note level = chunk_events_batch[OF assms(1), of env progress_callback files,
      folded m_def, folded evs_def]
  note sleeps = sleep_calls_batch[OF assms(1), of env progress_callback files,
      folded m_def, folded evs_def]
  have nth: "chunks cfg files ! k =
          take (nat (BATCH_SIZE cfg)) (drop (k * nat (BATCH_SIZE cfg)) files) \<and>
        chunks cfg files ! k \<noteq> []" if "k < length (chunks cfg files)" for k
  proof -
    have k: "k < (length files + b - 1) div b" using that m by (simp add: m_def)
    show ?thesis
      using chunks_nth[OF assms(1) that] chunks_nonempty[OF b k] by (simp add: b_def)
  qed
  have "chunks cfg files = map (\<lambda>k. chunks cfg files ! k) [0 ..< m]"
    unfolding m_def by (simp add: map_nth)
  also have "\<dots> = map (\<lambda>k. take b (drop (k * b) files)) [0 ..< m]"
    by (rule map_cong[OF refl]) (simp add: nth m_def b_def)
  finally have "concat (chunks cfg files) =
      concat (map (\<lambda>k. take b (drop (k * b) files)) [0 ..< m])" by simp
  then have cover: "concat (chunks cfg files) = files"
    using chunks_cover[OF b, of files] by (simp add: m)
  have tasks: "(\<forall>d. e \<noteq> Sleep d) \<and> (\<forall>v. e \<noteq> ProgressCallback v)"
    if "e \<in> set (task_events env j f)" for j f e
    using task_events_no_chunk_event[OF that] by (cases e) simp_all
  have single: "sleep_calls evs = []" if "int (length files) \<le> BATCH_SIZE cfg"
  proof -
    from that have "length files \<le> b" by (simp add: b_def)
    then have "length files + b - 1 < 2 * b" using b by simp
    then have "m \<le> 1" unfolding m using b
      by (metis less_mult_imp_div_less mult.commute less_2_cases_iff not_le_imp_less
          less_one linorder_not_le nat_less_le)
    then show ?thesis by (simp add: sleeps)
  qed
  have example: "map length (chunks cfg files) = [10, 10, 5] \<and>
        evs =
          concat (map (\<lambda>(j, file). task_events env j file) (enumerate 0 (take 10 files)))
          @ (if progress_callback then [ProgressCallback 40] else [])
          @ [Sleep (RATE_LIMIT_DELAY cfg)]
          @ concat (map (\<lambda>(j, file). task_events env j file)
              (enumerate 10 (take 10 (drop 10 files))))
          @ (if progress_callback then [ProgressCallback 80] else [])
          @ [Sleep (RATE_LIMIT_DELAY cfg)]
          @ concat (map (\<lambda>(j, file). task_events env j file) (enumerate 20 (drop 20 files)))
          @ (if progress_callback then [ProgressCallback 100] else []) \<and>
        sleep_calls evs = [RATE_LIMIT_DELAY cfg, RATE_LIMIT_DELAY cfg] \<and>
        (progress_callback \<longrightarrow> progress_calls evs = [40, 80, 100])"
    if ex: "length files = 25 \<and> BATCH_SIZE cfg = 10"
  proof -
    from ex have n: "length files = 25" and bs: "BATCH_SIZE cfg = 10" by simp_all
    have m3: "m = 3" using chunks_25_10(1)[OF n bs] by (simp add: m_def)
    have up: "[0 ..< 3] = [0, 1, 2]" by code_simp
    have v1: "min (fl (fl (10 / 25) * 100)) (100::rat) = 40" by code_simp
    have v2: "min (fl (fl (20 / 25) * 100)) (100::rat) = 80" by code_simp
    have v3: "min (fl (fl (25 / 25) * 100)) (100::rat) = 100" by code_simp
    have "progress_calls evs = [40, 80, 100]" if progress_callback
      using progress_calls_batch[OF assms(1), of env files] that v1 v2 v3
      by (simp add: evs_def m_def[symmetric] m3 up n bs)
    moreover have "sleep_calls evs = [RATE_LIMIT_DELAY cfg, RATE_LIMIT_DELAY cfg]"
      by (simp add: sleeps m3 numeral_2_eq_2)
    moreover note trace[unfolded m3, unfolded trace_25_10[OF n bs]]
    ultimately show ?thesis using chunks_25_10(2)[OF n bs] by (intro conjI impI) simp_all
  qed
  show ?thesis
  proof (intro exI conjI)
    show "process_batch env cfg progress_callback files = Returned (results, evs)"
      by (rule run)
    show "evs =
       concat (map (\<lambda>k.
           concat (map (\<lambda>(j, file). task_events env j file)
             (enumerate (k * nat (BATCH_SIZE cfg))
                (take (nat (BATCH_SIZE cfg)) (drop (k * nat (BATCH_SIZE cfg)) files))))
           @ (if progress_callback
              then [ProgressCallback
                     (min (fl (fl (of_nat (min ((k + 1) * nat (BATCH_SIZE cfg)) (length files))
                                   / of_nat (length files)) * 100)) 100)]
              else [])
           @ (if k + 1 < length (chunks cfg files) then [Sleep (RATE_LIMIT_DELAY cfg)] else []))
         [0 ..< length (chunks cfg files)])"
      using trace by (simp only: m_def)
    show "\<forall>k < length (chunks cfg files).
        chunks cfg files ! k =
          take (nat (BATCH_SIZE cfg)) (drop (k * nat (BATCH_SIZE cfg)) files) \<and>
        chunks cfg files ! k \<noteq> []"
      using nth by blast
    show "concat (chunks cfg files) = files" by (rule cover)
    show "\<forall>j file e. e \<in> set (task_events env j file) \<longrightarrow>
        (\<forall>d. e \<noteq> Sleep d) \<and> (\<forall>v. e \<noteq> ProgressCallback v)"
      using tasks by blast
    show "filter is_chunk_event evs =
       concat (map (\<lambda>k.
           (if progress_callback
            then [ProgressCallback
                   (min (fl (fl (of_nat (min ((k + 1) * nat (BATCH_SIZE cfg)) (length files))
                                 / of_nat (length files)) * 100)) 100)]
            else [])
           @ (if k + 1 < length (chunks cfg files) then [Sleep (RATE_LIMIT_DELAY cfg)] else []))
         [0 ..< length (chunks cfg files)])"
      using level by (simp only: m_def)
    show "sleep_calls evs = replicate (length (chunks cfg files) - 1) (RATE_LIMIT_DELAY cfg)"
      using sleeps by (simp only: m_def)
    show "int (length files) \<le> BATCH_SIZE cfg \<longrightarrow> sleep_calls evs = []"
      using single by blast
    show "length files = 25 \<and> BATCH_SIZE cfg = 10 \<longrightarrow>
        map length (chunks cfg files) = [10, 10, 5] \<and>
        evs =
          concat (map (\<lambda>(j, file). task_events env j file) (enumerate 0 (take 10 files)))
          @ (if progress_callback then [ProgressCallback 40] else [])
          @ [Sleep (RATE_LIMIT_DELAY cfg)]
          @ concat (map (\<lambda>(j, file). task_events env j file)
              (enumerate 10 (take 10 (drop 10 files))))
          @ (if progress_callback then [ProgressCallback 80] else [])
          @ [Sleep (RATE_LIMIT_DELAY cfg)]
          @ concat (map (\<lambda>(j, file). task_events env j file) (enumerate 20 (drop 20 files)))
          @ (if progress_callback then [ProgressCallback 100] else []) \<and>
        sleep_calls evs = [RATE_LIMIT_DELAY cfg, RATE_LIMIT_DELAY cfg] \<and>
        (progress_callback \<longrightarrow> progress_calls evs = [40, 80, 100])"
      using example by blast
  qed
qed

theorem inter_chunk_delay_witness:
  "\<exists>results evs.
     process_batch demo_env default_config True twenty_five_files = Returned (results, evs) \<and>
     map length (chunks default_config twenty_five_files) = [10, 10, 5] \<and>
     evs =
       concat (map (\<lambda>(j, file). task_events demo_env j file)
         (enumerate 0 (take 10 twenty_five_files)))
       @ [ProgressCallback 40] @ [Sleep 1]
       @ concat (map (\<lambda>(j, file). task_events demo_env j file)
           (enumerate 10 (take 10 (drop 10 twenty_five_files))))
       @ [ProgressCallback 80] @ [Sleep 1]
       @ concat (map (\<lambda>(j, file). task_events demo_env j file)
           (enumerate 20 (drop 20 twenty_five_files)))
       @ [ProgressCallback 100] \<and>
     task_events demo_env 9 (twenty_five_files ! 9) =
       [SaveUploadedFile 9, ExtractText 9 ''temp_files/tmp.pdf'',
        GenerateContent 9 (create_analysis_prompt ''resume''),
        CleanupTempFile 9 ''temp_files/tmp.pdf''] \<and>
     task_events demo_env 10 (twenty_five_files ! 10) =
       [SaveUploadedFile 10, ExtractText 10 ''temp_files/tmp.pdf'',
        GenerateContent 10 (create_analysis_prompt ''resume''),
        CleanupTempFile 10 ''temp_files/tmp.pdf''] \<and>
     filter is_chunk_event evs =
       [ProgressCallback 40, Sleep 1, ProgressCallback 80, Sleep 1, ProgressCallback 100] \<and>
     sleep_calls evs = [1, 1] \<and>
     progress_calls evs = [40, 80, 100]"
proof -
  have cfg: "0 < BATCH_SIZE default_config" "0 < MAX_CONCURRENT_REQUESTS default_config"
    by (simp_all add: default_config_def)
  have ex: "length twenty_five_files = 25 \<and> BATCH_SIZE default_config = 10"
    by (simp add: twenty_five_files_def default_config_def)
  have d: "RATE_LIMIT_DELAY default_config = 1" by (simp add: default_config_def)
  have level: "concat (map (\<lambda>k.
           (if True
            then [ProgressCallback
                   (min (fl (fl (of_nat (min ((k + 1) * nat (BATCH_SIZE default_config))
                       (length twenty_five_files))
                                 / of_nat (length twenty_five_files)) * 100)) 100)]
            else [])
           @ (if k + 1 < length (chunks default_config twenty_five_files)
              then [Sleep (RATE_LIMIT_DELAY default_config)] else []))
         [0 ..< length (chunks default_config twenty_five_files)]) =
       [ProgressCallback 40, Sleep 1, ProgressCallback 80, Sleep 1, ProgressCallback 100]"
    by code_simp
  have t9: "task_events demo_env 9 (twenty_five_files ! 9) =
       [SaveUploadedFile 9, ExtractText 9 ''temp_files/tmp.pdf'',
        GenerateContent 9 (create_analysis_prompt ''resume''),
        CleanupTempFile 9 ''temp_files/tmp.pdf'']"
    by code_simp
  have t10: "task_events demo_env 10 (twenty_five_files ! 10) =
       [SaveUploadedFile 10, ExtractText 10 ''temp_files/tmp.pdf'',
        GenerateContent 10 (create_analysis_prompt ''resume''),
        CleanupTempFile 10 ''temp_files/tmp.pdf'']"
    by code_simp
  from inter_chunk_delay[OF cfg, of demo_env True twenty_five_files]
  obtain results evs where
    r: "process_batch demo_env default_config True twenty_five_files = Returned (results, evs)"
    and l: "filter is_chunk_event evs = concat (map (\<lambda>k.
           (if True
            then [ProgressCallback
                   (min (fl (fl (of_nat (min ((k + 1) * nat (BATCH_SIZE default_config))
                       (length twenty_five_files))
                                 / of_nat (length twenty_five_files)) * 100)) 100)]
            else [])
           @ (if k + 1 < length (chunks default_config twenty_five_files)
              then [Sleep (RATE_LIMIT_DELAY default_config)] else []))
         [0 ..< length (chunks default_config twenty_five_files)])"
    and e: "length twenty_five_files = 25 \<and> BATCH_SIZE default_config = 10 \<longrightarrow>
        map length (chunks default_config twenty_five_files) = [10, 10, 5] \<and>
        evs =
          concat (map (\<lambda>(j, file). task_events demo_env j file)
            (enumerate 0 (take 10 twenty_five_files)))
          @ (if True then [ProgressCallback 40] else [])
          @ [Sleep (RATE_LIMIT_DELAY default_config)]
          @ concat (map (\<lambda>(j, file). task_events demo_env j file)
              (enumerate 10 (take 10 (drop 10 twenty_five_files))))
          @ (if True then [ProgressCallback 80] else [])
          @ [Sleep (RATE_LIMIT_DELAY default_config)]
          @ concat (map (\<lambda>(j, file). task_events demo_env j file)
              (enumerate 20 (drop 20 twenty_five_files)))
          @ (if True then [ProgressCallback 100] else []) \<and>
        sleep_calls evs = [RATE_LIMIT_DELAY default_config, RATE_LIMIT_DELAY default_config] \<and>
        (True \<longrightarrow> progress_calls evs = [40, 80, 100])"
    by (elim exE conjE) (rule that, assumption+)
  note e' = e[THEN mp, OF ex, unfolded d if_True]
  have c: "map length (chunks default_config twenty_five_files) = [10, 10, 5]"
    using e' by (rule conjunct1)
  have t: "evs =
       concat (map (\<lambda>(j, file). task_events demo_env j file)
         (enumerate 0 (take 10 twenty_five_files)))
       @ [ProgressCallback 40] @ [Sleep 1]
       @ concat (map (\<lambda>(j, file). task_events demo_env j file)
           (enumerate 10 (take 10 (drop 10 twenty_five_files))))
       @ [ProgressCallback 80] @ [Sleep 1]
       @ concat (map (\<lambda>(j, file). task_events demo_env j file)
           (enumerate 20 (drop 20 twenty_five_files)))
       @ [ProgressCallback 100]"
    using e' by (rule conjunct2[THEN conjunct1])
  have s: "sleep_calls evs = [1, 1]"
    using e' by (rule conjunct2[THEN conjunct2, THEN conjunct1])
  have p: "progress_calls evs = [40, 80, 100]"
    using e'[THEN conjunct2, THEN conjunct2, THEN conjunct2] by simp
  from r c t t9 t10 l[unfolded level] s p show ?thesis by (intro exI conjI)
qed
section \<open>Failures of single files\<close>

text \<open>
  C2. With a positive batch size and a positive number of concurrent requests: when the
  task of the file at index \<open>i\<close> raises an exception, the run still returns one outcome
  for every file; the outcome at \<open>i\<close> is the dictionary with the two entries
  \<^verbatim>\<open>error\<close>, which is \<^verbatim>\<open>Processing error: \<close> followed by the text of the exception,
  and \<^verbatim>\<open>file_name\<close>, which is the name of that file; every other file has the outcome
  of its own task, and the run holds all the calls of that task.
\<close>

theorem task_exception_becomes_failure:
  assumes "0 < BATCH_SIZE cfg" and "0 < MAX_CONCURRENT_REQUESTS cfg"
    and "i < length files"
    and "fst (process_file env i (files ! i)) = Inl e"
  shows "\<exists>results evs.
     process_batch env cfg progress_callback files = Returned (results, evs) \<and>
     length results = length files \<and>
     results ! i =
       [(''error'', JStr (''Processing error: '' @ str_exn e)),
        (''file_name'', JStr (name (files ! i)))] \<and>
     map_of (results ! i) ''error'' = Some (JStr (''Processing error: '' @ str_exn e)) \<and>
     map_of (results ! i) ''file_name'' = Some (JStr (name (files ! i))) \<and>
     dict_has ''error'' (results ! i) \<and>
     (\<forall>j < length files. j \<noteq> i \<longrightarrow>
        results ! j = task_outcome env j (files ! j) \<and>
        filter (\<lambda>e. event_item e = Some j) evs = task_events env j (files ! j))"
proof -
  let ?results = "map (\<lambda>(j, file). task_outcome env j file) (enumerate 0 files)"
  let ?evs = "concat (map (chunk_trace env cfg progress_callback files)
                [0 ..< length (chunks cfg files)])"
  have run: "process_batch env cfg progress_callback files = Returned (?results, ?evs)"
    using assms(1,2) by (rule process_batch_run)
  have len: "length ?results = length files" by simp
  have nth: "?results ! j = task_outcome env j (files ! j)" if "j < length files" for j
    using that by (simp add: nth_enumerate_eq)
  have "task_outcome env i (files ! i) =
      [(''error'', JStr (''Processing error: '' @ str_exn e)),
       (''file_name'', JStr (name (files ! i)))]"
    using assms(4) by (simp add: task_outcome_def settle_def processing_failure_def)
  then have own: "?results ! i =
      [(''error'', JStr (''Processing error: '' @ str_exn e)),
       (''file_name'', JStr (name (files ! i)))]"
    by (simp only: nth[OF assms(3)])
  have err: "map_of (?results ! i) ''error'' = Some (JStr (''Processing error: '' @ str_exn e))"
    by (simp only: own) simp
  have nm: "map_of (?results ! i) ''file_name'' = Some (JStr (name (files ! i)))"
    by (simp only: own) simp
  have has: "dict_has ''error'' (?results ! i)"
    using err by (simp only: dict_has_def) simp
  have others: "\<forall>j < length files. j \<noteq> i \<longrightarrow>
        ?results ! j = task_outcome env j (files ! j) \<and>
        filter (\<lambda>e. event_item e = Some j) ?evs = task_events env j (files ! j)"
    using nth batch_item_events[OF assms(1)] by blast
  from run len own err nm has others show ?thesis by (intro exI conjI)
qed

theorem task_exception_becomes_failure_witness:
  "fst (process_file demo_env 4 (demo_files ! 4)) =
     Inl (Exception ''Error saving uploaded file: disk full'') \<and>
   (\<exists>results evs.
     process_batch demo_env demo_config False demo_files = Returned (results, evs) \<and>
     length results = 7 \<and>
     results ! 4 =
       [(''error'', JStr ''Processing error: Error saving uploaded file: disk full''),
        (''file_name'', JStr ''cv4.pdf'')] \<and>
     results ! 5 =
       [(''error'', JStr ''Unsupported file format. Please upload PDF or DOCX files.''),
        (''file_name'', JStr ''notes.txt'')] \<and>
     filter (\<lambda>e. event_item e = Some 1) evs =
       [SaveUploadedFile 1, ExtractText 1 ''temp_files/tmp.pdf'',
        CleanupTempFile 1 ''temp_files/tmp.pdf''])"
proof -
  have cfg: "0 < BATCH_SIZE demo_config" "0 < MAX_CONCURRENT_REQUESTS demo_config"
    by (simp_all add: demo_config_def)
  have len: "length demo_files = 7" by (simp add: demo_files_def)
  have i: "4 < length demo_files" by (simp add: len)
  have raised: "fst (process_file demo_env 4 (demo_files ! 4)) =
      Inl (Exception ''Error saving uploaded file: disk full'')"
    by code_simp
  have n4: "name (demo_files ! 4) = ''cv4.pdf''" by code_simp
  have s4: "''Processing error: '' @
      str_exn (Exception ''Error saving uploaded file: disk full'') =
      ''Processing error: Error saving uploaded file: disk full''" by simp
  have o5: "task_outcome demo_env 5 (demo_files ! 5) =
      [(''error'', JStr ''Unsupported file format. Please upload PDF or DOCX files.''),
       (''file_name'', JStr ''notes.txt'')]"
    by code_simp
  have e1: "task_events demo_env 1 (demo_files ! 1) =
      [SaveUploadedFile 1, ExtractText 1 ''temp_files/tmp.pdf'',
       CleanupTempFile 1 ''temp_files/tmp.pdf'']"
    by code_simp
  from task_exception_becomes_failure[OF cfg i raised, of False]
  obtain results evs where
    run: "process_batch demo_env demo_config False demo_files = Returned (results, evs)"
    and l: "length results = length demo_files"
    and own: "results ! 4 =
      [(''error'', JStr (''Processing error: '' @
          str_exn (Exception ''Error saving uploaded file: disk full''))),
       (''file_name'', JStr (name (demo_files ! 4)))]"
    and others: "\<forall>j < length demo_files. j \<noteq> 4 \<longrightarrow>
        results ! j = task_outcome demo_env j (demo_files ! j) \<and>
        filter (\<lambda>e. event_item e = Some j) evs = task_events demo_env j (demo_files ! j)"
    by (elim exE conjE) (rule that, assumption+)
  from others len have r5: "results ! 5 = task_outcome demo_env 5 (demo_files ! 5)"
    and f1: "filter (\<lambda>e. event_item e = Some 1) evs = task_events demo_env 1 (demo_files ! 1)"
    by simp_all
  from raised run l[unfolded len] own[unfolded s4 n4] r5[unfolded o5] f1[unfolded e1]
  show ?thesis by (intro exI conjI)
qed

text \<open>
  C4. With a positive batch size and a positive number of concurrent requests: for a file
  whose lower-cased extension is neither \<^verbatim>\<open>.pdf\<close> nor \<^verbatim>\<open>.docx\<close>, or whose size
  is above 10 MB, the task returns the validation failure (the message for the format when
  the extension is refused, the message for the size otherwise) with the name of the file
  and makes no call at all; the run has this failure at the index of the file and holds no
  call for this file, in particular no text extraction and no call of the client. The
  failure is the dictionary with the two entries \<^verbatim>\<open>error\<close>, the message, and
  \<^verbatim>\<open>file_name\<close>, the name of the file.
\<close>

theorem invalid_file_rejected_first:
  assumes "0 < BATCH_SIZE cfg" and "0 < MAX_CONCURRENT_REQUESTS cfg"
    and "i < length files"
    and "lower (snd (splitext (name (files ! i)))) \<notin> set SUPPORTED_FORMATS \<or>
         10 * 1024 * 1024 < size_bytes (files ! i)"
  shows "process_file env i (files ! i) =
           (Inr (validation_failure
                   (if lower (snd (splitext (name (files ! i)))) \<notin> set SUPPORTED_FORMATS
                    then unsupported_format else file_too_large)
                   (name (files ! i))), []) \<and>
         (\<exists>results evs.
            process_batch env cfg progress_callback files = Returned (results, evs) \<and>
            results ! i =
              validation_failure
                (if lower (snd (splitext (name (files ! i)))) \<notin> set SUPPORTED_FORMATS
                 then unsupported_format else file_too_large)
                (name (files ! i)) \<and>
            filter (\<lambda>e. event_item e = Some i) evs = [] \<and>
            (\<forall>p. ExtractText i p \<notin> set evs \<and> GenerateContent i p \<notin> set evs) \<and>
            results ! i =
              [(''error'',
                JStr (if lower (snd (splitext (name (files ! i)))) \<notin> set SUPPORTED_FORMATS
                      then ''Unsupported file format. Please upload PDF or DOCX files.''
                      else ''File size exceeds maximum limit of 10MB'')),
               (''file_name'', JStr (name (files ! i)))])"
proof -
  let ?msg = "if lower (snd (splitext (name (files ! i)))) \<notin> set SUPPORTED_FORMATS
              then unsupported_format else file_too_large"
  let ?results = "map (\<lambda>(j, file). task_outcome env j file) (enumerate 0 files)"
  let ?evs = "concat (map (chunk_trace env cfg progress_callback files)
                [0 ..< length (chunks cfg files)])"
  have v: "validate_file (files ! i) = (False, ?msg)"
    using assms(4) by (auto simp: validate_file_cases)
  have task: "process_file env i (files ! i) =
      (Inr (validation_failure ?msg (name (files ! i))), [])"
    using task_outcome_invalid[of "files ! i" env i] by (simp add: v)
  have run: "process_batch env cfg progress_callback files = Returned (?results, ?evs)"
    using assms(1,2) by (rule process_batch_run)
  have own: "?results ! i = validation_failure ?msg (name (files ! i))"
    using assms(3) by (simp add: nth_enumerate_eq task_outcome_def task settle_def)
  have none: "filter (\<lambda>e. event_item e = Some i) ?evs = []"
    using batch_item_events[OF assms(1,3), of env progress_callback]
    by (simp add: task_events_def task)
  have calls: "\<forall>p. ExtractText i p \<notin> set ?evs \<and> GenerateContent i p \<notin> set ?evs"
  proof (intro allI conjI notI)
    fix p assume "ExtractText i p \<in> set ?evs"
    then have "ExtractText i p \<in> set (filter (\<lambda>e. event_item e = Some i) ?evs)" by simp
    then show False by (simp only: none list.set empty_iff)
  next
    fix p assume "GenerateContent i p \<in> set ?evs"
    then have "GenerateContent i p \<in> set (filter (\<lambda>e. event_item e = Some i) ?evs)" by simp
    then show False by (simp only: none list.set empty_iff)
  qed
  have lit: "?results ! i =
              [(''error'',
                JStr (if lower (snd (splitext (name (files ! i)))) \<notin> set SUPPORTED_FORMATS
                      then ''Unsupported file format. Please upload PDF or DOCX files.''
                      else ''File size exceeds maximum limit of 10MB'')),
               (''file_name'', JStr (name (files ! i)))]"
    unfolding own by (simp add: validation_failure_def unsupported_format_def file_too_large_def)
  from run own none calls lit
  have "\<exists>results evs.
            process_batch env cfg progress_callback files = Returned (results, evs) \<and>
            results ! i = validation_failure ?msg (name (files ! i)) \<and>
            filter (\<lambda>e. event_item e = Some i) evs = [] \<and>
            (\<forall>p. ExtractText i p \<notin> set evs \<and> GenerateContent i p \<notin> set evs) \<and>
            results ! i =
              [(''error'',
                JStr (if lower (snd (splitext (name (files ! i)))) \<notin> set SUPPORTED_FORMATS
                      then ''Unsupported file format. Please upload PDF or DOCX files.''
                      else ''File size exceeds maximum limit of 10MB'')),
               (''file_name'', JStr (name (files ! i)))]"
    by (intro exI conjI)
  with task show ?thesis by (rule conjI)
qed

theorem invalid_file_rejected_first_witness:
  "process_file demo_env 5 (demo_files ! 5) =
     (Inr [(''error'', JStr ''Unsupported file format. Please upload PDF or DOCX files.''),
           (''file_name'', JStr ''notes.txt'')], []) \<and>
   process_file demo_env 6 (demo_files ! 6) =
     (Inr [(''error'', JStr ''File size exceeds maximum limit of 10MB''),
           (''file_name'', JStr ''big.pdf'')], []) \<and>
   (\<exists>results evs.
      process_batch demo_env demo_config True demo_files = Returned (results, evs) \<and>
      results ! 5 =
        [(''error'', JStr ''Unsupported file format. Please upload PDF or DOCX files.''),
         (''file_name'', JStr ''notes.txt'')] \<and>
      results ! 6 =
        [(''error'', JStr ''File size exceeds maximum limit of 10MB''),
         (''file_name'', JStr ''big.pdf'')] \<and>
      filter (\<lambda>e. event_item e = Some 5) evs = [] \<and>
      filter (\<lambda>e. event_item e = Some 6) evs = [])"
proof -
  have cfg: "0 < BATCH_SIZE demo_config" "0 < MAX_CONCURRENT_REQUESTS demo_config"
    by (simp_all add: demo_config_def)
  have len: "length demo_files = 7" by (simp add: demo_files_def)
  have i5: "5 < length demo_files" and i6: "6 < length demo_files" by (simp_all add: len)
  have ext5: "lower (snd (splitext (name (demo_files ! 5)))) \<notin> set SUPPORTED_FORMATS"
    by code_simp
  have ext6: "\<not> lower (snd (splitext (name (demo_files ! 6)))) \<notin> set SUPPORTED_FORMATS"
    by code_simp
  have size6: "10 * 1024 * 1024 < size_bytes (demo_files ! 6)" by code_simp
  have n5: "name (demo_files ! 5) = ''notes.txt''" by code_simp
  have n6: "name (demo_files ! 6) = ''big.pdf''" by code_simp
  have v5: "validation_failure unsupported_format ''notes.txt'' =
      [(''error'', JStr ''Unsupported file format. Please upload PDF or DOCX files.''),
       (''file_name'', JStr ''notes.txt'')]"
    by (simp add: validation_failure_def unsupported_format_def)
  have v6: "validation_failure file_too_large ''big.pdf'' =
      [(''error'', JStr ''File size exceeds maximum limit of 10MB''),
       (''file_name'', JStr ''big.pdf'')]"
    by (simp add: validation_failure_def file_too_large_def)
  from ext5 have bad5: "lower (snd (splitext (name (demo_files ! 5)))) \<notin> set SUPPORTED_FORMATS \<or>
         10 * 1024 * 1024 < size_bytes (demo_files ! 5)" by (rule disjI1)
  from size6 have bad6: "lower (snd (splitext (name (demo_files ! 6)))) \<notin> set SUPPORTED_FORMATS \<or>
         10 * 1024 * 1024 < size_bytes (demo_files ! 6)" by (rule disjI2)
  note t5 = invalid_file_rejected_first[OF cfg i5 bad5, of demo_env True,
      unfolded if_P[OF ext5], unfolded n5, unfolded v5]
  note t6 = invalid_file_rejected_first[OF cfg i6 bad6, of demo_env True,
      unfolded if_not_P[OF ext6], unfolded n6, unfolded v6]
  from t5 obtain results evs where
    run: "process_batch demo_env demo_config True demo_files = Returned (results, evs)"
    and r5: "results ! 5 =
        [(''error'', JStr ''Unsupported file format. Please upload PDF or DOCX files.''),
         (''file_name'', JStr ''notes.txt'')]"
    and e5: "filter (\<lambda>e. event_item e = Some 5) evs = []"
    by (elim exE conjE) (rule that, assumption+)
  from t6 obtain results' evs' where
    run': "process_batch demo_env demo_config True demo_files = Returned (results', evs')"
    and r6: "results' ! 6 =
        [(''error'', JStr ''File size exceeds maximum limit of 10MB''),
         (''file_name'', JStr ''big.pdf'')]"
    and e6: "filter (\<lambda>e. event_item e = Some 6) evs' = []"
    by (elim exE conjE) (rule that, assumption+)
  from run run' have same: "results' = results" "evs' = evs" by simp_all
  from t5 have p5: "process_file demo_env 5 (demo_files ! 5) =
     (Inr [(''error'', JStr ''Unsupported file format. Please upload PDF or DOCX files.''),
           (''file_name'', JStr ''notes.txt'')], [])" by (rule conjunct1)
  from t6 have p6: "process_file demo_env 6 (demo_files ! 6) =
     (Inr [(''error'', JStr ''File size exceeds maximum limit of 10MB''),
           (''file_name'', JStr ''big.pdf'')], [])" by (rule conjunct1)
  from p5 p6 run r5 r6[unfolded same] e5 e6[unfolded same] show ?thesis
    by (intro exI conjI)
qed

section \<open>The answer of the client\<close>

lemma parse_failure_no_file_info: "map_of (parse_failure msg n raw) ''file_info'' = None"
  by (simp add: parse_failure_def)

lemma analysis_failure_no_file_info: "map_of (analysis_failure e n) ''file_info'' = None"
  by (simp add: analysis_failure_def)

lemma handled_has_error:
  "case handle_exception e n r of Inl e' \<Rightarrow> True | Inr d \<Rightarrow> dict_has ''error'' d"
  by (cases e; cases r)
     (simp_all add: handle_exception_def analysis_failure_def parse_failure_def dict_has_def
        split: sum.splits)

lemma task_error_of_analysis:
  assumes "fst (validate_file file)"
    and "fst (save_uploaded_file env i file) = Inr p"
  shows "dict_has ''error'' (task_outcome env i file) \<longleftrightarrow>
         (case fst (analyze_single_resume env i p (name file)) of
            Inl e \<Rightarrow> True | Inr d \<Rightarrow> dict_has ''error'' d)"
proof (cases "fst (analyze_single_resume env i p (name file))")
  case (Inl e)
  have "task_outcome env i file = processing_failure e (name file)"
    using task_raised[OF assms Inl] by (simp add: task_outcome_def settle_def)
  then show ?thesis by (simp add: Inl processing_failure_def dict_has_def)
next
  case (Inr d)
  show ?thesis
    by (simp add: Inr task_outcome_analyzed[OF assms Inr] dict_has_dict_set)
qed

lemma task_error_of_handler:
  assumes "fst (validate_file file)"
    and "fst (save_uploaded_file env i file) = Inr p"
    and "fst (analyze_single_resume env i p (name file)) = handle_exception e (name file) r"
  shows "dict_has ''error'' (task_outcome env i file)"
  using handled_has_error[of e "name file" r]
  by (simp add: task_error_of_analysis[OF assms(1,2)] assms(3))

lemma error_entry_iff:
  "dict_has ''error'' (task_outcome env i file) \<longleftrightarrow>
   \<not> (\<exists>d. decoded env i file = Some (JObj d) \<and> has_metadata (JObj d) \<and> \<not> dict_has ''error'' d)"
proof (cases "fst (validate_file file)")
  case False
  then have "task_outcome env i file = validation_failure (snd (validate_file file)) (name file)"
    by (simp add: task_outcome_def task_outcome_invalid settle_def)
  then have "dict_has ''error'' (task_outcome env i file)"
    by (simp add: validation_failure_def dict_has_def)
  moreover have "decoded env i file = None" using False by (simp add: decoded_def)
  ultimately show ?thesis by simp
next
  case valid: True
  show ?thesis
  proof (cases "fst (save_uploaded_file env i file)")
    case (Inl e)
    have "task_outcome env i file = processing_failure e (name file)"
      using task_outcome_unsaved[OF valid Inl] by (simp add: task_outcome_def settle_def)
    then have "dict_has ''error'' (task_outcome env i file)"
      by (simp add: processing_failure_def dict_has_def)
    moreover have "decoded env i file = None" using valid Inl by (simp add: decoded_def)
    ultimately show ?thesis by simp
  next
    case saved: (Inr p)
    note handled = task_error_of_handler[OF valid saved]
    show ?thesis
    proof (cases "fst (extract_text_from_file env i p)")
      case (Inl e)
      have "decoded env i file = None" using valid saved Inl by (simp add: decoded_def)
      moreover have "fst (analyze_single_resume env i p (name file)) =
          handle_exception e (name file) None"
        using Inl by (cases "extract_text_from_file env i p") (simp add: analyze_single_resume_def)
      ultimately show ?thesis using handled by simp
    next
      case extracted: (Inr t)
      show ?thesis
      proof (cases "generate_content env i (create_analysis_prompt t)")
        case (Inl e)
        have "decoded env i file = None"
          using valid saved extracted Inl by (simp add: decoded_def)
        then show ?thesis
          using handled[OF analyze_generate_fails[OF extracted Inl]] by simp
      next
        case (Inr response)
        show ?thesis
        proof (cases "response_text response")
          case (Inl e)
          then have answered: "generate_content env i (create_analysis_prompt t) =
              Inr (Response (Inl e))"
            using Inr by (cases response) simp
          have "decoded env i file = None"
            using valid saved extracted answered by (simp add: decoded_def)
          then show ?thesis
            using handled[OF analyze_text_fails[OF extracted answered]] by simp
        next
          case read: (Inr raw)
          then have answered: "generate_content env i (create_analysis_prompt t) =
              Inr (Response (Inr raw))"
            using Inr by (cases response) simp
          show ?thesis
          proof (cases "json_loads env (strip raw)")
            case (Inl e)
            have "decoded env i file = None"
              using valid saved extracted answered Inl by (simp add: decoded_def)
            then show ?thesis
              using handled[OF analyze_decode_fails[OF extracted answered Inl]] by simp
          next
            case loaded: (Inr v)
            have dec: "decoded env i file = Some v"
              using valid saved extracted answered loaded by (simp add: decoded_def)
            show ?thesis
            proof (cases "has_metadata v")
              case False
              from analyze_stamp_fails[OF extracted answered loaded False, of "name file"]
              obtain e where
                a: "fst (analyze_single_resume env i p (name file)) =
                      Inr (analysis_failure e (name file))"
                by blast
              have "dict_has ''error'' (analysis_failure e (name file))"
                by (simp add: analysis_failure_def dict_has_def)
              then have "dict_has ''error'' (task_outcome env i file)"
                by (simp add: task_error_of_analysis[OF valid saved] a)
              then show ?thesis using False by (auto simp: dec)
            next
              case True
              then obtain d md
                where d: "v = JObj d" "map_of d ''analysis_metadata'' = Some (JObj md)"
                by (auto simp: has_metadata_iff)
              have "dict_has ''error'' (task_outcome env i file) \<longleftrightarrow> dict_has ''error'' d"
                by (simp add: task_error_of_analysis[OF valid saved]
                      analyze_stamps[OF extracted answered loaded[unfolded d(1)] d(2)]
                      dict_has_dict_set)
              then show ?thesis using True by (auto simp: dec d(1))
            qed
          qed
        qed
      qed
    qed
  qed
qed

section \<open>Decoding the answer\<close>

lemma decode_error_keeps_raw_response:
  assumes "fst (validate_file file)"
    and "fst (save_uploaded_file env i file) = Inr p"
    and "fst (extract_text_from_file env i p) = Inr t"
    and "generate_content env i (create_analysis_prompt t) = Inr (Response (Inr raw))"
    and "json_loads env (strip raw) = Inl (JSONDecodeError m)"
  shows "task_outcome env i file =
     [(''error'', JStr (''Failed to parse AI response as JSON: '' @ m)),
      (''file_name'', JStr (name file)),
      (''raw_response'', JStr raw),
      (''file_info'', JObj (get_file_info file))]"
proof -
  have a: "fst (analyze_single_resume env i p (name file)) =
      Inr (parse_failure m (name file) raw)"
    by (simp only: analyze_decode_fails[OF assms(3-5)] handle_decode_error_bound)
  have "task_outcome env i file =
      parse_failure m (name file) raw @ [(''file_info'', JObj (get_file_info file))]"
    by (simp only: task_outcome_analyzed[OF assms(1,2) a]
          file_info_appended[OF parse_failure_no_file_info])
  then show ?thesis by (simp add: parse_failure_def)
qed

lemma other_decoding_failure_drops_raw_response:
  assumes "fst (validate_file file)"
    and "fst (save_uploaded_file env i file) = Inr p"
    and "fst (extract_text_from_file env i p) = Inr t"
    and "generate_content env i (create_analysis_prompt t) = Inr (Response (Inr raw))"
    and "json_loads env (strip raw) = Inl e"
    and "\<forall>m. e \<noteq> JSONDecodeError m"
  shows "task_outcome env i file =
     [(''error'', JStr (''Error analyzing resume: '' @ str_exn e)),
      (''file_name'', JStr (name file)),
      (''file_info'', JObj (get_file_info file))]"
    and "map_of (task_outcome env i file) ''raw_response'' = None"
proof -
  have a: "fst (analyze_single_resume env i p (name file)) =
      Inr (analysis_failure e (name file))"
    by (simp only: analyze_decode_fails[OF assms(3-5)] handle_other_exception[OF assms(6)])
  have "task_outcome env i file =
      analysis_failure e (name file) @ [(''file_info'', JObj (get_file_info file))]"
    by (simp only: task_outcome_analyzed[OF assms(1,2) a]
          file_info_appended[OF analysis_failure_no_file_info])
  then show lit: "task_outcome env i file =
     [(''error'', JStr (''Error analyzing resume: '' @ str_exn e)),
      (''file_name'', JStr (name file)),
      (''file_info'', JObj (get_file_info file))]"
    by (simp add: analysis_failure_def)
  show "map_of (task_outcome env i file) ''raw_response'' = None"
    by (simp add: lit)
qed

text \<open>
  C5. The specification asks that the outcome keeps the answer of the client whenever the
  decoding of the answer fails. The code keeps it only when \<^verbatim>\<open>json.loads\<close> raises a
  \<^verbatim>\<open>JSONDecodeError\<close>. For an answer of 1100 opening brackets, which the client
  returns as a text and on which \<^verbatim>\<open>json.loads\<close> raises a \<^verbatim>\<open>RecursionError\<close>, the
  file is valid and saved, its text is extracted, the answer is read and stripped, the
  decoding fails, and the outcome of the task is the dictionary of the general handler:
  it has the entries \<^verbatim>\<open>error\<close>, \<^verbatim>\<open>file_name\<close> and \<^verbatim>\<open>file_info\<close>, and none for
  \<^verbatim>\<open>raw_response\<close>; the answer is lost.
\<close>

theorem decode_failure_drops_raw_response:
  "fst (validate_file (demo_files ! 0)) \<and>
   fst (save_uploaded_file deep_env 0 (demo_files ! 0)) = Inr ''temp_files/tmp.pdf'' \<and>
   fst (extract_text_from_file deep_env 0 ''temp_files/tmp.pdf'') = Inr ''resume'' \<and>
   generate_content deep_env 0 (create_analysis_prompt ''resume'') =
     Inr (Response (Inr deep_text)) \<and>
   length deep_text = 1100 \<and> set deep_text = {CHR ''[''} \<and>
   json_loads deep_env (strip deep_text) =
     Inl (RecursionError (''maximum recursion depth exceeded while decoding '' @
                          ''a JSON array from a unicode string'')) \<and>
   task_outcome deep_env 0 (demo_files ! 0) =
     [(''error'', JStr (''Error analyzing resume: maximum recursion depth exceeded '' @
                       ''while decoding a JSON array from a unicode string'')),
      (''file_name'', JStr ''cv0.pdf''),
      (''file_info'', JObj (get_file_info (demo_files ! 0)))] \<and>
   map_of (task_outcome deep_env 0 (demo_files ! 0)) ''raw_response'' = None"
proof -
  have h1: "fst (validate_file (demo_files ! 0))" by code_simp
  have h2: "fst (save_uploaded_file deep_env 0 (demo_files ! 0)) = Inr ''temp_files/tmp.pdf''"
    by code_simp
  have h3: "fst (extract_text_from_file deep_env 0 ''temp_files/tmp.pdf'') = Inr ''resume''"
    by code_simp
  have h4: "generate_content deep_env 0 (create_analysis_prompt ''resume'') =
      Inr (Response (Inr deep_text))"
    by (simp add: deep_env_def)
  have len: "length deep_text = 1100" by (simp add: deep_text_def)
  have chars: "set deep_text = {CHR ''[''}" by (simp add: deep_text_def)
  have "strip deep_text = deep_text" by code_simp
  then have h5: "json_loads deep_env (strip deep_text) =
      Inl (RecursionError (''maximum recursion depth exceeded while decoding '' @
                           ''a JSON array from a unicode string''))"
    by (simp add: deep_env_def)
  have other: "\<forall>m. RecursionError (''maximum recursion depth exceeded while decoding '' @
                           ''a JSON array from a unicode string'') \<noteq> JSONDecodeError m"
    by simp
  have n: "name (demo_files ! 0) = ''cv0.pdf''" by code_simp
  note out = other_decoding_failure_drops_raw_response[OF h1 h2 h3 h4 h5 other, unfolded n]
  have o: "task_outcome deep_env 0 (demo_files ! 0) =
     [(''error'', JStr (''Error analyzing resume: maximum recursion depth exceeded '' @
                       ''while decoding a JSON array from a unicode string'')),
      (''file_name'', JStr ''cv0.pdf''),
      (''file_info'', JObj (get_file_info (demo_files ! 0)))]"
    using out(1) by simp
  from h1 h2 h3 h4 len chars h5 o out(2) show ?thesis by (intro conjI)
qed

text \<open>
  C8. For a file that is valid and saved, whose text is extracted, and for which the client
  answers a text that decodes to a dictionary with a dictionary under
  \<^verbatim>\<open>analysis_metadata\<close>: the outcome of the task is the decoded dictionary in which
  the metadata has the name of the uploaded file under \<^verbatim>\<open>file_name\<close> and the time
  of the clock under \<^verbatim>\<open>processing_timestamp\<close>, whatever the response held there,
  every other entry of the metadata being kept.
\<close>

theorem metadata_stamped_by_orchestrator:
  assumes "fst (validate_file file)"
    and "fst (save_uploaded_file env i file) = Inr p"
    and "fst (extract_text_from_file env i p) = Inr text"
    and "generate_content env i (create_analysis_prompt text) = Inr (Response (Inr raw))"
    and "json_loads env (strip raw) = Inr (JObj d)"
    and "map_of d ''analysis_metadata'' = Some (JObj md)"
  shows "task_outcome env i file =
           dict_set ''file_info'' (JObj (get_file_info file))
             (dict_set ''analysis_metadata''
                (JObj (dict_set ''processing_timestamp'' (JStr (strftime env i))
                         (dict_set ''file_name'' (JStr (name file)) md))) d) \<and>
         (\<exists>md'. map_of (task_outcome env i file) ''analysis_metadata'' = Some (JObj md') \<and>
                map_of md' ''file_name'' = Some (JStr (name file)) \<and>
                map_of md' ''processing_timestamp'' = Some (JStr (strftime env i)) \<and>
                (\<forall>k. k \<noteq> ''file_name'' \<and> k \<noteq> ''processing_timestamp'' \<longrightarrow>
                       map_of md' k = map_of md k))"
proof -
  let ?md' = "dict_set ''processing_timestamp'' (JStr (strftime env i))
                (dict_set ''file_name'' (JStr (name file)) md)"
  have eq: "task_outcome env i file =
      dict_set ''file_info'' (JObj (get_file_info file)) (dict_set ''analysis_metadata'' (JObj ?md') d)"
    by (rule task_outcome_analyzed[OF assms(1,2) analyze_stamps[OF assms(3-6)]])
  have look: "map_of (task_outcome env i file) ''analysis_metadata'' = Some (JObj ?md')"
    by (simp add: eq map_of_dict_set)
  have fn: "map_of ?md' ''file_name'' = Some (JStr (name file))"
    by (simp add: map_of_dict_set)
  have ts: "map_of ?md' ''processing_timestamp'' = Some (JStr (strftime env i))"
    by (simp add: map_of_dict_set)
  have rest: "\<forall>k. k \<noteq> ''file_name'' \<and> k \<noteq> ''processing_timestamp'' \<longrightarrow>
      map_of ?md' k = map_of md k"
    by (simp add: map_of_dict_set)
  from look fn ts rest have "\<exists>md'. map_of (task_outcome env i file) ''analysis_metadata'' = Some (JObj md') \<and>
                map_of md' ''file_name'' = Some (JStr (name file)) \<and>
                map_of md' ''processing_timestamp'' = Some (JStr (strftime env i)) \<and>
                (\<forall>k. k \<noteq> ''file_name'' \<and> k \<noteq> ''processing_timestamp'' \<longrightarrow>
                       map_of md' k = map_of md k)"
    by (intro exI[of _ ?md'] conjI)
  with eq show ?thesis by (rule conjI)
qed

theorem metadata_stamped_by_orchestrator_witness:
  "json_loads demo_env (strip '' {} '') = Inr demo_response \<and>
   task_outcome demo_env 0 (demo_files ! 0) =
     [(''name'', JStr ''Ada''),
      (''analysis_metadata'',
         JObj [(''processing_timestamp'', JStr ''2024-01-01 00:00:00''),
               (''file_name'', JStr ''cv0.pdf''),
               (''confidence_score'', JStr ''9'')]),
      (''file_info'', JObj (get_file_info (demo_files ! 0)))]"
proof -
  let ?md = "[(''processing_timestamp'', JStr ''Current timestamp''),
              (''file_name'', JStr ''model.pdf''),
              (''confidence_score'', JStr ''9'')]"
  let ?d = "[(''name'', JStr ''Ada''), (''analysis_metadata'', JObj ?md)]"
  have h1: "fst (validate_file (demo_files ! 0))" by code_simp
  have h2: "fst (save_uploaded_file demo_env 0 (demo_files ! 0)) = Inr ''temp_files/tmp.pdf''"
    by code_simp
  have h3: "fst (extract_text_from_file demo_env 0 ''temp_files/tmp.pdf'') = Inr ''resume''"
    by code_simp
  have h4: "generate_content demo_env 0 (create_analysis_prompt ''resume'') =
      Inr (Response (Inr '' {} ''))"
    by (simp add: demo_env_def)
  have h5: "json_loads demo_env (strip '' {} '') = Inr (JObj ?d)" by code_simp
  have h6: "map_of ?d ''analysis_metadata'' = Some (JObj ?md)" by simp
  have r: "json_loads demo_env (strip '' {} '') = Inr demo_response" by code_simp
  have v: "dict_set ''file_info'' (JObj (get_file_info (demo_files ! 0)))
             (dict_set ''analysis_metadata''
                (JObj (dict_set ''processing_timestamp'' (JStr (strftime demo_env 0))
                         (dict_set ''file_name'' (JStr (name (demo_files ! 0))) ?md))) ?d) =
     [(''name'', JStr ''Ada''),
      (''analysis_metadata'',
         JObj [(''processing_timestamp'', JStr ''2024-01-01 00:00:00''),
               (''file_name'', JStr ''cv0.pdf''),
               (''confidence_score'', JStr ''9'')]),
      (''file_info'', JObj (get_file_info (demo_files ! 0)))]"
    by code_simp
  note eq = metadata_stamped_by_orchestrator[OF h1 h2 h3 h4 h5 h6, THEN conjunct1]
  show ?thesis using r eq[unfolded v] by (rule conjI)
qed

text \<open>
  C10. For a file that is valid and saved, whose text is extracted and for which the client
  answers a text that decodes to a value \<open>v\<close>: when \<open>v\<close> is not a dictionary with a
  dictionary under \<^verbatim>\<open>analysis_metadata\<close>, stamping the file name raises, and the
  outcome of the task is the dictionary of the general handler for that exception: an
  \<^verbatim>\<open>error\<close> entry that is \<^verbatim>\<open>Error analyzing resume: \<close> followed by the text of the
  exception, the name of the file under \<^verbatim>\<open>file_name\<close>, and the file information; when
  the key is missing the text is that of the \<^verbatim>\<open>KeyError\<close>; and an outcome without an
  \<^verbatim>\<open>error\<close> entry arises only when \<open>v\<close> is such a dictionary.
\<close>

theorem response_without_metadata_fails:
  assumes "fst (validate_file file)"
    and "fst (save_uploaded_file env i file) = Inr p"
    and "fst (extract_text_from_file env i p) = Inr text"
    and "generate_content env i (create_analysis_prompt text) = Inr (Response (Inr raw))"
    and "json_loads env (strip raw) = Inr v"
  shows "(\<not> (\<exists>d md. v = JObj d \<and> map_of d ''analysis_metadata'' = Some (JObj md)) \<longrightarrow>
            (\<exists>e. set_metadata env v ''file_name'' (name file) = Inl e \<and>
                  task_outcome env i file =
                    [(''error'', JStr (''Error analyzing resume: '' @ str_exn e)),
                     (''file_name'', JStr (name file)),
                     (''file_info'', JObj (get_file_info file))]) \<and>
            (\<exists>e. task_outcome env i file =
                    analysis_failure e (name file)
                      @ [(''file_info'', JObj (get_file_info file))]) \<and>
            dict_has ''error'' (task_outcome env i file) \<and>
            map_of (task_outcome env i file) ''file_name'' = Some (JStr (name file))) \<and>
         (\<forall>d. v = JObj d \<and> map_of d ''analysis_metadata'' = None \<longrightarrow>
            map_of (task_outcome env i file) ''error'' =
              Some (JStr (''Error analyzing resume: '' @ [CHR 0x27] @ ''analysis_metadata''
                            @ [CHR 0x27]))) \<and>
         (\<not> dict_has ''error'' (task_outcome env i file) \<longrightarrow>
            (\<exists>d md. v = JObj d \<and> map_of d ''analysis_metadata'' = Some (JObj md)))"
proof -
  let ?info = "JObj (get_file_info file)"
  let ?stampable = "\<exists>d md. v = JObj d \<and> map_of d ''analysis_metadata'' = Some (JObj md)"
  have fails: "(\<exists>e. set_metadata env v ''file_name'' (name file) = Inl e \<and>
                  task_outcome env i file =
                    [(''error'', JStr (''Error analyzing resume: '' @ str_exn e)),
                     (''file_name'', JStr (name file)),
                     (''file_info'', ?info)]) \<and>
            (\<exists>e. task_outcome env i file = analysis_failure e (name file) @ [(''file_info'', ?info)]) \<and>
            dict_has ''error'' (task_outcome env i file) \<and>
            map_of (task_outcome env i file) ''file_name'' = Some (JStr (name file))"
    if "\<not> ?stampable"
  proof -
    from that have "\<not> has_metadata v" unfolding has_metadata_iff .
    from analyze_stamp_fails[OF assms(3-5) this, of "name file"] obtain e
      where s: "set_metadata env v ''file_name'' (name file) = Inl e"
        and a: "fst (analyze_single_resume env i p (name file)) =
                  Inr (analysis_failure e (name file))"
      by (elim exE conjE) (rule that, assumption+)
    have t: "task_outcome env i file = analysis_failure e (name file) @ [(''file_info'', ?info)]"
      by (simp only: task_outcome_analyzed[OF assms(1,2) a]
            file_info_appended[OF analysis_failure_no_file_info])
    then have lit: "task_outcome env i file =
                    [(''error'', JStr (''Error analyzing resume: '' @ str_exn e)),
                     (''file_name'', JStr (name file)),
                     (''file_info'', ?info)]"
      by (simp add: analysis_failure_def)
    have "dict_has ''error'' (task_outcome env i file)"
      by (simp add: lit dict_has_def)
    moreover have "map_of (task_outcome env i file) ''file_name'' = Some (JStr (name file))"
      by (simp add: lit)
    ultimately show ?thesis using s t lit by blast
  qed
  have missing: "map_of (task_outcome env i file) ''error'' =
              Some (JStr (''Error analyzing resume: '' @ [CHR 0x27] @ ''analysis_metadata''
                            @ [CHR 0x27]))"
    if "v = JObj d \<and> map_of d ''analysis_metadata'' = None" for d
  proof -
    from that have s: "set_metadata env v ''file_name'' (name file) =
        Inl (KeyError (CHR 0x27 # ''analysis_metadata'' @ [CHR 0x27]))"
      by (simp add: set_metadata_def)
    from that have "\<not> has_metadata v" by (auto simp: has_metadata_iff)
    from analyze_stamp_fails[OF assms(3-5) this, of "name file"] s
    have a: "fst (analyze_single_resume env i p (name file)) =
        Inr (analysis_failure (KeyError (CHR 0x27 # ''analysis_metadata'' @ [CHR 0x27]))
               (name file))"
      by auto
    show ?thesis
      by (simp add: task_outcome_analyzed[OF assms(1,2) a] map_of_dict_set analysis_failure_def)
  qed
  have success: "?stampable" if "\<not> dict_has ''error'' (task_outcome env i file)"
  proof (rule ccontr)
    assume "\<not> ?stampable"
    from fails[OF this] that show False by simp
  qed
  from fails missing success show ?thesis by blast
qed

theorem response_without_metadata_fails_witness:
  "json_loads bare_env (strip '' {} '') = Inr (JObj [(''name'', JStr ''Ada'')]) \<and>
   dict_has ''error'' (task_outcome bare_env 0 (demo_files ! 0)) \<and>
   map_of (task_outcome bare_env 0 (demo_files ! 0)) ''file_name'' = Some (JStr ''cv0.pdf'') \<and>
   map_of (task_outcome bare_env 0 (demo_files ! 0)) ''error'' =
     Some (JStr (''Error analyzing resume: '' @ [CHR 0x27] @ ''analysis_metadata'' @ [CHR 0x27]))"
proof -
  let ?d = "[(''name'', JStr ''Ada'')]"
  have h1: "fst (validate_file (demo_files ! 0))" by code_simp
  have h2: "fst (save_uploaded_file bare_env 0 (demo_files ! 0)) = Inr ''temp_files/tmp.pdf''"
    by code_simp
  have h3: "fst (extract_text_from_file bare_env 0 ''temp_files/tmp.pdf'') = Inr ''resume''"
    by code_simp
  have h4: "generate_content bare_env 0 (create_analysis_prompt ''resume'') =
      Inr (Response (Inr '' {} ''))"
    by (simp add: bare_env_def demo_env_def)
  have h5: "json_loads bare_env (strip '' {} '') = Inr (JObj ?d)" by code_simp
  have n: "name (demo_files ! 0) = ''cv0.pdf''" by code_simp
  have bare: "\<not> (\<exists>d md. JObj ?d = JObj d \<and> map_of d ''analysis_metadata'' = Some (JObj md))"
    by simp
  have none: "JObj ?d = JObj ?d \<and> map_of ?d ''analysis_metadata'' = None" by simp
  note all = response_without_metadata_fails[OF h1 h2 h3 h4 h5, unfolded n]
  note failure = all[THEN conjunct1, THEN mp, OF bare, THEN conjunct2, THEN conjunct2]
  note message = all[THEN conjunct2, THEN conjunct1, THEN spec, of ?d, THEN mp, OF none]
  show ?thesis
    using h5 failure[THEN conjunct1] failure[THEN conjunct2] message
    by (intro conjI)
qed

section \<open>Failures of the extraction and of the client\<close>






section \<open>Successes and failures as the aggregator counts them\<close>

text \<open>
  C3, as amended. With a positive batch size and a positive number of concurrent requests,
  every outcome of a run is counted by the aggregator either as a failure or as a success,
  never both and never neither, and the outcome of a file is counted as a success exactly
  when its task decoded a dictionary with a dictionary under \<^verbatim>\<open>analysis_metadata\<close>
  and that decoded dictionary has no \<^verbatim>\<open>error\<close> entry of its own.
\<close>

theorem outcomes_split_by_error_entry:
  assumes "0 < BATCH_SIZE cfg" and "0 < MAX_CONCURRENT_REQUESTS cfg"
  shows "\<exists>results evs.
     process_batch env cfg progress_callback files = Returned (results, evs) \<and>
     length results = length files \<and>
     length (successful_results results) + length (failed_results results) = length results \<and>
     (\<forall>r \<in> set results.
        (r \<in> set (failed_results results)) = (r \<notin> set (successful_results results))) \<and>
     (\<forall>i < length files.
        dict_has ''error'' (results ! i) =
          (\<not> (\<exists>d. decoded env i (files ! i) = Some (JObj d) \<and> has_metadata (JObj d) \<and>
                   \<not> dict_has ''error'' d)))"
proof -
  let ?results = "map (\<lambda>(j, file). task_outcome env j file) (enumerate 0 files)"
  let ?evs = "concat (map (chunk_trace env cfg progress_callback files)
                [0 ..< length (chunks cfg files)])"
  have run: "process_batch env cfg progress_callback files = Returned (?results, ?evs)"
    using assms by (rule process_batch_run)
  have len: "length ?results = length files" by simp
  have count: "length (successful_results ?results) + length (failed_results ?results) =
      length ?results"
    unfolding successful_results_def failed_results_def
    by (simp only: add.commute[of "length (filter (\<lambda>r. \<not> dict_has ''error'' r) ?results)"]
          sum_length_filter_compl)
  have one: "\<forall>r \<in> set ?results.
        (r \<in> set (failed_results ?results)) = (r \<notin> set (successful_results ?results))"
    by (simp add: successful_results_def failed_results_def)
  have entry: "\<forall>i < length files.
        dict_has ''error'' (?results ! i) =
          (\<not> (\<exists>d. decoded env i (files ! i) = Some (JObj d) \<and> has_metadata (JObj d) \<and>
                   \<not> dict_has ''error'' d))"
    by (simp add: nth_enumerate_eq error_entry_iff)
  from run len count one entry show ?thesis by blast
qed

theorem outcomes_split_by_error_entry_witness:
  "\<exists>results evs.
     process_batch demo_env demo_config False demo_files = Returned (results, evs) \<and>
     length results = 7 \<and>
     length (successful_results results) + length (failed_results results) = 7 \<and>
     \<not> dict_has ''error'' (results ! 0) \<and>
     dict_has ''error'' (results ! 3)"
proof -
  have cfg: "0 < BATCH_SIZE demo_config" "0 < MAX_CONCURRENT_REQUESTS demo_config"
    by (simp_all add: demo_config_def)
  have len: "length demo_files = 7" by (simp add: demo_files_def)
  have d0: "decoded demo_env 0 (demo_files ! 0) = Some demo_response"
    and m0: "has_metadata demo_response"
    by code_simp+
  have d3: "decoded demo_env 3 (demo_files ! 3) = None" by code_simp
  have clean: "\<exists>d. decoded demo_env 0 (demo_files ! 0) = Some (JObj d) \<and> has_metadata (JObj d) \<and>
      \<not> dict_has ''error'' d"
    using d0 m0 by (simp add: demo_response_def dict_has_def)
  have none: "\<not> (\<exists>d. decoded demo_env 3 (demo_files ! 3) = Some (JObj d) \<and>
      has_metadata (JObj d) \<and> \<not> dict_has ''error'' d)"
    by (simp add: d3)
  from outcomes_split_by_error_entry[OF cfg, of demo_env False demo_files]
  obtain results evs where
    run: "process_batch demo_env demo_config False demo_files = Returned (results, evs)"
    and l: "length results = length demo_files"
    and count: "length (successful_results results) + length (failed_results results) =
      length results"
    and entry: "\<forall>i < length demo_files.
        dict_has ''error'' (results ! i) =
          (\<not> (\<exists>d. decoded demo_env i (demo_files ! i) = Some (JObj d) \<and> has_metadata (JObj d) \<and>
                   \<not> dict_has ''error'' d))"
    by (elim exE conjE) (rule that, assumption+)
  have i0: "0 < length demo_files" and i3: "3 < length demo_files" by (simp_all add: len)
  note e0 = entry[THEN spec, of 0, THEN mp, OF i0]
  note e3 = entry[THEN spec, of 3, THEN mp, OF i3]
  have r0: "\<not> dict_has ''error'' (results ! 0)" unfolding e0 not_not by (rule clean)
  have r3: "dict_has ''error'' (results ! 3)" unfolding e3 by (rule none)
  from l count have l': "length results = 7"
    and count': "length (successful_results results) + length (failed_results results) = 7"
    by (simp_all only: len)
  from run l' count' r0 r3 show ?thesis by blast
qed

text \<open>A response with an \<^verbatim>\<open>error\<close> entry of its own is stamped and returned like
  any other, and counted as a failure.\<close>

theorem success_path_classified_as_failure_counterexample:
  "decoded misleading_env 0 (demo_files ! 0) = Some misleading_response \<and>
   has_metadata misleading_response \<and>
   process_batch misleading_env default_config False [demo_files ! 0] =
     Returned ([task_outcome misleading_env 0 (demo_files ! 0)],
               task_events misleading_env 0 (demo_files ! 0)) \<and>
   task_outcome misleading_env 0 (demo_files ! 0) =
     [(''error'', JStr ''none''),
      (''analysis_metadata'',
         JObj [(''file_name'', JStr ''cv0.pdf''),
               (''processing_timestamp'', JStr ''2024-01-01 00:00:00'')]),
      (''file_info'', JObj (get_file_info (demo_files ! 0)))] \<and>
   failed_results [task_outcome misleading_env 0 (demo_files ! 0)] =
     [task_outcome misleading_env 0 (demo_files ! 0)] \<and>
   successful_results [task_outcome misleading_env 0 (demo_files ! 0)] = []"
proof (intro conjI)
  show "decoded misleading_env 0 (demo_files ! 0) = Some misleading_response" by code_simp
  show "has_metadata misleading_response" by code_simp
  show "process_batch misleading_env default_config False [demo_files ! 0] =
     Returned ([task_outcome misleading_env 0 (demo_files ! 0)],
               task_events misleading_env 0 (demo_files ! 0))"
    by code_simp
  show "task_outcome misleading_env 0 (demo_files ! 0) =
     [(''error'', JStr ''none''),
      (''analysis_metadata'',
         JObj [(''file_name'', JStr ''cv0.pdf''),
               (''processing_timestamp'', JStr ''2024-01-01 00:00:00'')]),
      (''file_info'', JObj (get_file_info (demo_files ! 0)))]"
    by code_simp
  show "failed_results [task_outcome misleading_env 0 (demo_files ! 0)] =
     [task_outcome misleading_env 0 (demo_files ! 0)]"
    by code_simp
  show "successful_results [task_outcome misleading_env 0 (demo_files ! 0)] = []"
    by code_simp
qed

end
